theory Spec2Isabelle
  imports Complex_Main "HOL-Library.Log_Nat"
begin

section \<open>Data model of \<^verbatim>\<open>src/pages/Game.tsx\<close>\<close>

text \<open>
  The game is one React component. Its numbers are JavaScript numbers, that is doubles.
  A coordinate is modelled as the \<open>real\<close> it denotes. Every coordinate but an obstacle's
  \<open>y\<close> is a small integer, and sums and differences of small integers are exact in
  doubles; \<open>y\<close> is a product with a random draw, idealised here to the exact product. The
  sums of \<^verbatim>\<open>checkCollision\<close> involve \<open>y\<close> and are rounded as a double addition rounds.
  Counters and scores are integers of unbounded size.
\<close>

subsection \<open>Double addition\<close>

text \<open>
  IEEE 754 binary64 addition: the exact sum, rounded to the nearest double, ties to the
  even significand. \<open>binade v\<close> is the exponent \<open>e\<close> with \<open>2^e \<le> |v| < 2^(e+1)\<close>; doubles
  of that binade are the multiples of \<open>2^(e-52)\<close>, and below \<open>2^(-1022)\<close> the spacing stays
  \<open>2^(-1074)\<close>. Sums are taken to stay below \<open>2^1024\<close> in magnitude (no infinity); the
  sign of zero does not matter to a comparison.
\<close>

definition binade :: "real \<Rightarrow> int" where
  "binade v =
     (let a = \<bar>v\<bar>
      in if 1 \<le> a then bitlen \<lfloor>a\<rfloor> - 1
         else let b = bitlen \<lfloor>1 / a\<rfloor>
              in if 1 \<le> a * 2 powi (b - 1) then 1 - b else - b)"

definition roundHalfEven :: "real \<Rightarrow> int" where
  "roundHalfEven q =
     (let f = \<lfloor>q\<rfloor>; r = q - of_int f
      in if r < 1 / 2 then f
         else if 1 / 2 < r then f + 1
         else if even f then f else f + 1)"

definition roundDouble :: "real \<Rightarrow> real" where
  "roundDouble v =
     (if v = 0 then 0
      else let u = 2 powi (max (binade v) (- 1022) - 52)
           in of_int (roundHalfEven (v / u)) * u)"

definition js_add :: "real \<Rightarrow> real \<Rightarrow> real" where
  "js_add a b = roundDouble (a + b)"

subsection \<open>Game objects\<close>

datatype gameMode = G4 | G5

datatype obstacleType = meteor | satellite

record gameObject =
  x :: real
  y :: real
  width :: real
  height :: real
  speed :: real

record obstacle = gameObject +
  type :: obstacleType

text \<open>\<^verbatim>\<open>checkCollision(rect1, rect2)\<close>, lines 306-313.\<close>

definition checkCollision :: "'a gameObject_scheme \<Rightarrow> 'b gameObject_scheme \<Rightarrow> bool" where
  "checkCollision rect1 rect2 =
     (x rect1 < js_add (x rect2) (width rect2) \<and>
      js_add (x rect1) (width rect1) > x rect2 \<and>
      y rect1 < js_add (y rect2) (height rect2) \<and>
      js_add (y rect1) (height rect1) > y rect2)"


subsection \<open>JavaScript built-ins the component calls\<close>

text \<open>
  A JavaScript number that may be \<^verbatim>\<open>NaN\<close>: the persisted high score is read with
  \<^verbatim>\<open>parseInt\<close>, which yields \<^verbatim>\<open>NaN\<close> on a string without a leading integer.
\<close>

datatype jsnum = NaN | Num int

text \<open>\<^verbatim>\<open>a > b\<close> on numbers: false whenever an operand is \<^verbatim>\<open>NaN\<close>.\<close>

fun js_gt :: "int \<Rightarrow> jsnum \<Rightarrow> bool" where
  "js_gt a NaN = False"
| "js_gt a (Num b) = (a > b)"

text \<open>
  \<^verbatim>\<open>parseInt(string)\<close> with no radix, after ECMAScript: skip leading white space, read
  an optional sign, switch to radix 16 after a \<^verbatim>\<open>0x\<close> prefix, read the longest prefix of
  digits; no digit gives \<^verbatim>\<open>NaN\<close>. A \<open>char\<close> stands for a code unit below 256, so white
  space is the part of the standard's set below 256: tab, line feed, vertical tab, form
  feed, carriage return, space and the no-break space U+00A0. The value is the exact
  integer (a double rounds beyond \<open>2^53\<close>).
\<close>

definition isWhiteSpace :: "char \<Rightarrow> bool" where
  "isWhiteSpace c = ((of_char c :: nat) \<in> {9, 10, 11, 12, 13, 32, 160})"

definition digitValue :: "char \<Rightarrow> nat option" where
  "digitValue c =
     (let n = (of_char c :: nat) in
      if 48 \<le> n \<and> n \<le> 57 then Some (n - 48)
      else if 97 \<le> n \<and> n \<le> 102 then Some (n - 87)
      else if 65 \<le> n \<and> n \<le> 70 then Some (n - 55)
      else None)"

definition radixDigit :: "nat \<Rightarrow> char \<Rightarrow> bool" where
  "radixDigit R c = (case digitValue c of Some v \<Rightarrow> v < R | None \<Rightarrow> False)"

definition digitsValue :: "nat \<Rightarrow> string \<Rightarrow> nat" where
  "digitsValue R z =
     foldl (\<lambda>acc c. case digitValue c of Some v \<Rightarrow> acc * R + v | None \<Rightarrow> acc) 0 z"

definition parseInt :: "string \<Rightarrow> jsnum" where
  "parseInt inputString =
     (let s0 = dropWhile isWhiteSpace inputString;
          sign = (if s0 \<noteq> [] \<and> hd s0 = CHR ''-'' then - 1 else (1::int));
          s1 = (if s0 \<noteq> [] \<and> (hd s0 = CHR ''+'' \<or> hd s0 = CHR ''-'') then tl s0 else s0);
          hex = (take 2 s1 = ''0x'' \<or> take 2 s1 = ''0X'');
          R = (if hex then 16 else 10);
          s2 = (if hex then drop 2 s1 else s1);
          z = takeWhile (radixDigit R) s2
      in if z = [] then NaN else Num (sign * int (digitsValue R z)))"

text \<open>\<^verbatim>\<open>n.toString()\<close> of an integer: its decimal digits, with a minus sign below zero.\<close>

fun digitsOf :: "nat \<Rightarrow> string" where
  "digitsOf n =
     (if n < 10 then [char_of (48 + n)]
      else digitsOf (n div 10) @ [char_of (48 + n mod 10)])"

declare digitsOf.simps [simp del]

definition toString :: "int \<Rightarrow> string" where
  "toString n = (if n < 0 then CHR ''-'' # digitsOf (nat (- n)) else digitsOf (nat n))"

text \<open>\<^verbatim>\<open>s.toLowerCase()\<close>, on ASCII letters.\<close>

definition toLowerCase :: "string \<Rightarrow> string" where
  "toLowerCase s =
     map (\<lambda>c. let n = (of_char c :: nat) in if 65 \<le> n \<and> n \<le> 90 then char_of (n + 32) else c) s"

subsection \<open>The component's state\<close>

text \<open>
  \<open>gameState\<close> is the object behind \<^verbatim>\<open>gameStateRef\<close> (lines 36-47); \<open>keys\<close> is a
  \<^verbatim>\<open>Record<string, boolean>\<close>, where an absent key reads as falsy.
\<close>

record gameState =
  rocket :: gameObject
  obstacles :: "obstacle list"
  keys :: "string \<Rightarrow> bool"
  score :: int
  frameCount :: int
  lastObstacleFrame :: int
  lagFrames :: int
  shouldFreeze :: bool
  freezeCounter :: int

text \<open>
  \<open>session\<close> gathers the React state of the component (\<^verbatim>\<open>gameMode\<close>, \<^verbatim>\<open>score\<close>, here
  \<open>scoreState\<close>, \<^verbatim>\<open>gameOver\<close>, \<^verbatim>\<open>highScore\<close>), the ref and the browser's
  \<^verbatim>\<open>localStorage\<close>.
\<close>

record session =
  gameMode :: gameMode
  scoreState :: int
  gameOver :: bool
  highScore :: jsnum
  gameStateRef :: gameState
  localStorage :: "string \<rightharpoonup> string"

text \<open>
  The values \<^verbatim>\<open>Math.random()\<close> returns at the three places one frame may call it: the
  freeze coin (line 89), the obstacle type (line 124) and the vertical position (line 128).
\<close>

record draws =
  freezeDraw :: real
  typeDraw :: real
  yDraw :: real

definition canvas_width :: real where
  "canvas_width = 800"

definition canvas_height :: real where
  "canvas_height = 600"

definition initialGameState :: gameState where
  "initialGameState =
     \<lparr>rocket = \<lparr>x = 100, y = 300, width = 40, height = 60, speed = 5\<rparr>,
      obstacles = [],
      keys = (\<lambda>k. False),
      score = 0,
      frameCount = 0,
      lastObstacleFrame = 0,
      lagFrames = 0,
      shouldFreeze = False,
      freezeCounter = 0\<rparr>"

definition storageKey :: "gameMode \<Rightarrow> string" where
  "storageKey m = ''highScore-'' @ (case m of G4 \<Rightarrow> ''4G'' | G5 \<Rightarrow> ''5G'')"

text \<open>
  The initialiser of \<^verbatim>\<open>highScore\<close>, lines 30-33:
  \<^verbatim>\<open>saved ? parseInt(saved) : 0\<close>, where \<^verbatim>\<open>getItem\<close> gives \<^verbatim>\<open>null\<close> for a missing
  entry and the empty string is falsy as well.
\<close>

definition readHighScore :: "(string \<rightharpoonup> string) \<Rightarrow> gameMode \<Rightarrow> jsnum" where
  "readHighScore storage m =
     (case storage (storageKey m) of
        None \<Rightarrow> Num 0
      | Some saved \<Rightarrow> if saved \<noteq> [] then parseInt saved else Num 0)"

definition initSession :: "gameMode \<Rightarrow> (string \<rightharpoonup> string) \<Rightarrow> session" where
  "initSession m storage =
     \<lparr>gameMode = m,
      scoreState = 0,
      gameOver = False,
      highScore = readHighScore storage m,
      gameStateRef = initialGameState,
      localStorage = storage\<rparr>"

subsection \<open>Event handlers\<close>

definition handleKeyDown :: "string \<Rightarrow> session \<Rightarrow> session" where
  "handleKeyDown key c =
     c\<lparr>gameStateRef := (gameStateRef c)\<lparr>keys := (keys (gameStateRef c))(toLowerCase key := True)\<rparr>\<rparr>"

definition handleKeyUp :: "string \<Rightarrow> session \<Rightarrow> session" where
  "handleKeyUp key c =
     c\<lparr>gameStateRef := (gameStateRef c)\<lparr>keys := (keys (gameStateRef c))(toLowerCase key := False)\<rparr>\<rparr>"

text \<open>\<^verbatim>\<open>handleRestart\<close>, lines 315-329.\<close>

definition handleRestart :: "session \<Rightarrow> session" where
  "handleRestart c = c\<lparr>gameOver := False, scoreState := 0, gameStateRef := initialGameState\<rparr>"

subsection \<open>The frame function \<^verbatim>\<open>gameLoop\<close>, lines 78-166\<close>

definition moveSpeed :: "gameMode \<Rightarrow> real" where
  "moveSpeed m = (if m = G5 then 6 else 4)"

definition spawnRate :: "gameMode \<Rightarrow> int" where
  "spawnRate m = (if m = G5 then 60 else 50)"

definition obstacleSpeed :: "gameMode \<Rightarrow> real" where
  "obstacleSpeed m = (if m = G5 then 4 else 3)"

text \<open>
  The 4G block, lines 87-104, on the state whose \<open>frameCount\<close> is already incremented.
  The flag tells whether the frame returns there (a frozen frame).
\<close>

definition lagEffect :: "draws \<Rightarrow> gameState \<Rightarrow> gameState \<times> bool" where
  "lagEffect d state =
     (let s1 = (if frameCount state mod 120 = 0 \<and> freezeDraw d > 0.5
                then state\<lparr>shouldFreeze := True, freezeCounter := 15\<rparr> else state)
      in if shouldFreeze s1 \<and> freezeCounter s1 > 0
         then (s1\<lparr>freezeCounter := freezeCounter s1 - 1\<rparr>, True)
         else (s1\<lparr>shouldFreeze := False\<rparr>, False))"

text \<open>Move rocket, lines 106-119.\<close>

definition moveRocket :: "gameMode \<Rightarrow> (string \<Rightarrow> bool) \<Rightarrow> gameObject \<Rightarrow> gameObject" where
  "moveRocket m ks r0 =
     (let r1 = (if ks ''w'' \<or> ks ''arrowup''
                then r0\<lparr>y := max 0 (y r0 - moveSpeed m)\<rparr> else r0);
          r2 = (if ks ''s'' \<or> ks ''arrowdown''
                then r1\<lparr>y := min (canvas_height - height r1) (y r1 + moveSpeed m)\<rparr> else r1);
          r3 = (if ks ''a'' \<or> ks ''arrowleft''
                then r2\<lparr>x := max 0 (x r2 - moveSpeed m)\<rparr> else r2)
      in if ks ''d'' \<or> ks ''arrowright''
         then r3\<lparr>x := min (canvas_width - width r3) (x r3 + moveSpeed m)\<rparr> else r3)"

text \<open>Spawn obstacles, lines 121-135.\<close>

definition newObstacle :: "gameMode \<Rightarrow> draws \<Rightarrow> obstacle" where
  "newObstacle m d =
     (let obstacleType = (if typeDraw d > 0.5 then meteor else satellite);
          size = (if obstacleType = meteor then 30 else 40)
      in \<lparr>x = canvas_width,
          y = yDraw d * (canvas_height - size),
          width = size,
          height = size,
          speed = obstacleSpeed m,
          type = obstacleType\<rparr>)"

definition spawnObstacles :: "gameMode \<Rightarrow> draws \<Rightarrow> gameState \<Rightarrow> gameState" where
  "spawnObstacles m d state =
     (if frameCount state - lastObstacleFrame state > spawnRate m
      then state\<lparr>obstacles := obstacles state @ [newObstacle m d],
                 lastObstacleFrame := frameCount state\<rparr>
      else state)"

text \<open>
  Move and remove obstacles, lines 137-147: the loop runs \<open>i\<close> from \<open>length - 1\<close> down
  to \<open>0\<close>; \<open>moveObstaclesLoop (Suc i)\<close> is the iteration at index \<open>i\<close>. The triple is the
  array, \<^verbatim>\<open>state.score\<close> and the React \<^verbatim>\<open>score\<close> that \<^verbatim>\<open>setScore\<close> writes. A removal
  at \<open>i\<close> shifts only the indices above \<open>i\<close>, so the index read is always in range.
\<close>

fun moveObstaclesLoop :: "nat \<Rightarrow> obstacle list \<times> int \<times> int \<Rightarrow> obstacle list \<times> int \<times> int" where
  "moveObstaclesLoop 0 acc = acc"
| "moveObstaclesLoop (Suc i) (obs, sc, shown) =
     (let obs1 = obs[i := (obs ! i)\<lparr>x := x (obs ! i) - speed (obs ! i)\<rparr>]
      in if x (obs1 ! i) + width (obs1 ! i) < 0
         then moveObstaclesLoop i (take i obs1 @ drop (Suc i) obs1, sc + 10, sc + 10)
         else moveObstaclesLoop i (obs1, sc, shown))"

definition moveObstacles :: "session \<Rightarrow> session" where
  "moveObstacles c =
     (let state = gameStateRef c
      in case moveObstaclesLoop (length (obstacles state)) (obstacles state, score state, scoreState c) of
           (obs, sc, shown) \<Rightarrow>
             c\<lparr>scoreState := shown, gameStateRef := state\<lparr>obstacles := obs, score := sc\<rparr>\<rparr>)"

text \<open>Collision detection and the game-over transition, lines 149-160.\<close>

definition detectCollisions :: "session \<Rightarrow> session" where
  "detectCollisions c =
     (let state = gameStateRef c
      in if list_ex (checkCollision (rocket state)) (obstacles state)
         then if js_gt (score state) (highScore c)
              then c\<lparr>gameOver := True,
                     highScore := Num (score state),
                     localStorage := (localStorage c)(storageKey (gameMode c) \<mapsto> toString (score state))\<rparr>
              else c\<lparr>gameOver := True\<rparr>
         else c)"

text \<open>Lines 106-160: what a frame does when it is not frozen.\<close>

definition updateGame :: "draws \<Rightarrow> session \<Rightarrow> session" where
  "updateGame d c =
     (let state = gameStateRef c;
          state1 = state\<lparr>rocket := moveRocket (gameMode c) (keys state) (rocket state)\<rparr>;
          state2 = spawnObstacles (gameMode c) d state1
      in detectCollisions (moveObstacles (c\<lparr>gameStateRef := state2\<rparr>)))"

definition gameLoop :: "draws \<Rightarrow> session \<Rightarrow> session" where
  "gameLoop d c =
     (if gameOver c then c
      else let state = (gameStateRef c)\<lparr>frameCount := frameCount (gameStateRef c) + 1\<rparr>
           in if gameMode c = G4
              then (case lagEffect d state of
                      (s1, frozen) \<Rightarrow>
                        if frozen then c\<lparr>gameStateRef := s1\<rparr>
                        else updateGame d (c\<lparr>gameStateRef := s1\<rparr>))
              else updateGame d (c\<lparr>gameStateRef := state\<rparr>))"

subsection \<open>Sessions as event sequences\<close>

text \<open>
  What the host delivers to the component: key presses and releases, animation frames
  (each with the random draws it may consume) and the restart button. The button is shown
  only after game over; here a restart may come at any time, which only adds sessions.
  \<^verbatim>\<open>drawFrame\<close> and the toasts read the state and write none of it, so they are left out.
\<close>

datatype event = KeyDown string | KeyUp string | Frame draws | Restart

fun step :: "event \<Rightarrow> session \<Rightarrow> session" where
  "step (KeyDown key) c = handleKeyDown key c"
| "step (KeyUp key) c = handleKeyUp key c"
| "step (Frame d) c = gameLoop d c"
| "step Restart c = handleRestart c"

definition run :: "event list \<Rightarrow> session \<Rightarrow> session" where
  "run es c = foldl (\<lambda>c' e. step e c') c es"

subsection \<open>Vocabulary of the properties\<close>

text \<open>An obstacle after one frame of drift, and the test that removes it (lines 139, 142).\<close>

definition drift :: "obstacle \<Rightarrow> obstacle" where
  "drift ob = ob\<lparr>x := x ob - speed ob\<rparr>"

definition offScreen :: "obstacle \<Rightarrow> bool" where
  "offScreen ob = (x ob + width ob < 0)"

text \<open>Whether the frame that \<open>gameLoop d c\<close> runs takes the early return of the 4G block.\<close>

definition frozenFrame :: "draws \<Rightarrow> session \<Rightarrow> bool" where
  "frozenFrame d c =
     (gameMode c = G4 \<and>
      snd (lagEffect d ((gameStateRef c)\<lparr>frameCount := frameCount (gameStateRef c) + 1\<rparr>)))"

fun isFrame :: "event \<Rightarrow> bool" where
  "isFrame (Frame d) = True"
| "isFrame e = False"

text \<open>The rocket keeps its size and lies inside the canvas.\<close>

definition rocketInField :: "gameObject \<Rightarrow> bool" where
  "rocketInField r =
     (width r = 40 \<and> height r = 60 \<and>
      0 \<le> x r \<and> x r \<le> canvas_width - width r \<and>
      0 \<le> y r \<and> y r \<le> canvas_height - height r)"

text \<open>An obstacle that has left the spawning column and drifts to the left.\<close>

definition entered :: "obstacle \<Rightarrow> bool" where
  "entered ob = (x ob < canvas_width \<and> 0 < speed ob)"

text \<open>The obstacles a running frame appends before it moves them (lines 123-135).\<close>

definition spawned :: "draws \<Rightarrow> session \<Rightarrow> obstacle list" where
  "spawned d c =
     (if frameCount (gameStateRef c) + 1 - lastObstacleFrame (gameStateRef c) > spawnRate (gameMode c)
      then [newObstacle (gameMode c) d] else [])"

text \<open>A browser with nothing stored, and one fixed outcome of the random draws.\<close>

definition emptyStorage :: "string \<rightharpoonup> string" where
  "emptyStorage = Map.empty"

definition sampleDraws :: draws where
  "sampleDraws = \<lparr>freezeDraw = 3 / 4, typeDraw = 3 / 4, yDraw = 0\<rparr>"

text \<open>
  A 5G session state at frame 267, written down directly rather than reached by a run:
  one obstacle about to leave on the left and another behind it.
\<close>

definition leavingSession :: session where
  "leavingSession =
     (initSession G5 emptyStorage)
       \<lparr>gameStateRef := initialGameState
          \<lparr>obstacles := [\<lparr>x = - 28, y = 0, width = 30, height = 30, speed = 4, type = meteor\<rparr>,
                         \<lparr>x = 216, y = 0, width = 30, height = 30, speed = 4, type = meteor\<rparr>],
           frameCount := 267,
           lastObstacleFrame := 244\<rparr>\<rparr>"

text \<open>
  An idle 5G session after \<open>n\<close> frames, \<open>n \<le> 121\<close>: nothing has moved but the frame counter
  and, from frame 61 on, the first obstacle.
\<close>

definition firstObstacleAt :: "nat \<Rightarrow> obstacle \<Rightarrow> bool" where
  "firstObstacleAt n ob =
     (speed ob = 4 \<and> x ob = 800 - 4 * (real n - 60) \<and>
      0 \<le> y ob \<and> y ob \<le> 600 - height ob \<and>
      width ob = height ob \<and> (height ob = 30 \<or> height ob = 40))"

definition idle5G :: "nat \<Rightarrow> session \<Rightarrow> bool" where
  "idle5G n c =
     (gameMode c = G5 \<and> \<not> gameOver c \<and>
      frameCount (gameStateRef c) = int n \<and>
      rocket (gameStateRef c) = rocket initialGameState \<and>
      keys (gameStateRef c) = (\<lambda>k. False) \<and>
      (if n \<le> 60
       then obstacles (gameStateRef c) = [] \<and> lastObstacleFrame (gameStateRef c) = 0
       else lastObstacleFrame (gameStateRef c) = 61 \<and>
            (\<exists>ob. obstacles (gameStateRef c) = [ob] \<and> firstObstacleAt n ob)))"

text \<open>
  What a frozen frame must leave alone: everything that movement, spawning, collision
  detection and the game-over transition write.
\<close>

definition frozenPart ::
  "session \<Rightarrow> gameObject \<times> obstacle list \<times> int \<times> int \<times> int \<times> bool \<times> jsnum \<times> (string \<rightharpoonup> string) \<times> gameMode" where
  "frozenPart c =
     (rocket (gameStateRef c), obstacles (gameStateRef c), score (gameStateRef c),
      lastObstacleFrame (gameStateRef c), scoreState c, gameOver c, highScore c,
      localStorage c, gameMode c)"

text \<open>
  A 4G session state at frame 119, written down directly: the next frame is the first one
  that may start a freeze.
\<close>

definition lagSession :: session where
  "lagSession =
     (initSession G4 emptyStorage)
       \<lparr>gameStateRef := initialGameState
          \<lparr>obstacles := [\<lparr>x = 593, y = 0, width = 30, height = 30, speed = 3, type = meteor\<rparr>,
                         \<lparr>x = 746, y = 0, width = 30, height = 30, speed = 3, type = meteor\<rparr>],
           frameCount := 119,
           lastObstacleFrame := 102\<rparr>\<rparr>"

text \<open>
  The \<open>highScore\<close> state agrees with what the storage holds for the mode of the session.
\<close>

definition inSync :: "gameMode \<Rightarrow> session \<Rightarrow> bool" where
  "inSync m c = (gameMode c = m \<and> highScore c = readHighScore (localStorage c) m)"

text \<open>
  A stored entry below every score, and the events of a 5G session that holds \<^verbatim>\<open>w\<close>
  and \<^verbatim>\<open>d\<close> for 90 frames.
\<close>

definition crashStorage :: "string \<rightharpoonup> string" where
  "crashStorage = emptyStorage(storageKey G5 \<mapsto> ''-5'')"

definition crashEvents :: "event list" where
  "crashEvents = KeyDown ''w'' # KeyDown ''d'' # replicate 90 (Frame sampleDraws)"

text \<open>
  The two sums \<^verbatim>\<open>checkCollision\<close> takes of a rectangle are exact, and a rectangle with
  integer coordinates and extent whose far edges stay below \<open>2^53\<close>.
\<close>

definition exactSums :: "'a gameObject_scheme \<Rightarrow> bool" where
  "exactSums r =
     (js_add (x r) (width r) = x r + width r \<and> js_add (y r) (height r) = y r + height r)"

definition integerRect :: "'a gameObject_scheme \<Rightarrow> bool" where
  "integerRect r =
     (x r \<in> \<int> \<and> y r \<in> \<int> \<and> width r \<in> \<int> \<and> height r \<in> \<int> \<and>
      \<bar>x r + width r\<bar> < 2 ^ 53 \<and> \<bar>y r + height r\<bar> < 2 ^ 53)"

section \<open>Properties\<close>

subsection \<open>Double addition is exact on integers\<close>

lemma roundHalfEven_of_int: "roundHalfEven (of_int n) = n"
  by (simp add: roundHalfEven_def)

lemma binade_of_int:
  assumes "k \<noteq> 0" and "\<bar>k\<bar> < 2 ^ 53"
  shows "0 \<le> binade (of_int k)" and "binade (of_int k) \<le> 52"
proof -
  have pos: "0 < \<bar>k\<bar>" using assms by simp
  have b: "binade (of_int k) = bitlen \<bar>k\<bar> - 1"
  proof -
    have "\<bar>real_of_int k\<bar> = of_int \<bar>k\<bar>" by simp
    moreover have "1 \<le> real_of_int \<bar>k\<bar>" using pos by linarith
    ultimately show ?thesis by (simp add: binade_def Let_def del: of_int_abs)
  qed
  from bitlen_bounds [OF pos]
  have lo: "2 ^ nat (bitlen \<bar>k\<bar> - 1) \<le> \<bar>k\<bar>" by simp
  have ge1: "1 \<le> bitlen \<bar>k\<bar>"
    using pos bitlen_eq_zero_iff [of "\<bar>k\<bar>"] bitlen_nonneg [of "\<bar>k\<bar>"] by linarith
  then show "0 \<le> binade (of_int k)" unfolding b by simp
  have "(2::int) ^ nat (bitlen \<bar>k\<bar> - 1) < 2 ^ 53" using lo assms(2) by linarith
  then have "nat (bitlen \<bar>k\<bar> - 1) < 53"
    by (rule power_less_imp_less_exp [of 2, rotated]) simp
  then show "binade (of_int k) \<le> 52" unfolding b by linarith
qed

lemma roundDouble_of_int:
  assumes "\<bar>k\<bar> < 2 ^ 53"
  shows "roundDouble (of_int k) = of_int k"
proof (cases "k = 0")
  case True
  then show ?thesis by (simp add: roundDouble_def)
next
  case False
  define e where "e = binade (real_of_int k)"
  have e: "0 \<le> e" "e \<le> 52" unfolding e_def using binade_of_int [OF False assms] by simp_all
  define n where "n = nat (52 - e)"
  have u: "(2::real) powi (e - 52) = 1 / 2 ^ n"
  proof -
    have "e - 52 = - int n" using e by (simp add: n_def)
    then have "(2::real) powi (e - 52) = 2 powi (- int n)" by simp
    also have "\<dots> = inverse (2 powi int n)" by (rule power_int_minus)
    also have "\<dots> = 1 / 2 ^ n" by (simp add: inverse_eq_divide)
    finally show ?thesis .
  qed
  have q: "real_of_int k / (1 / 2 ^ n) = of_int (k * 2 ^ n)" by simp
  have "roundDouble (of_int k) =
      of_int (roundHalfEven (real_of_int k / (2 powi (e - 52)))) * 2 powi (e - 52)"
    using False e by (simp add: roundDouble_def Let_def e_def max_def)
  also have "\<dots> = of_int (k * 2 ^ n) * (1 / 2 ^ n)"
    unfolding u q roundHalfEven_of_int ..
  also have "\<dots> = of_int k" by simp
  finally show ?thesis .
qed

lemma js_add_Ints:
  assumes "a \<in> \<int>" and "b \<in> \<int>" and "\<bar>a + b\<bar> < 2 ^ 53"
  shows "js_add a b = a + b"
proof -
  from assms(1,2) obtain m n where mn: "a = of_int m" "b = of_int n"
    by (auto elim!: Ints_cases)
  have "\<bar>m + n\<bar> < 2 ^ 53"
  proof -
    have "real_of_int \<bar>m + n\<bar> < real_of_int (2 ^ 53)" using assms(3) unfolding mn by simp
    then show ?thesis by (simp only: of_int_less_iff)
  qed
  then have "roundDouble (of_int (m + n)) = of_int (m + n)" by (rule roundDouble_of_int)
  then show ?thesis unfolding js_add_def mn by simp
qed

lemma js_add_100_40: "js_add 100 40 = 140"
  using js_add_Ints [of 100 40] by simp

subsection \<open>The obstacle loop and the three kinds of frame\<close>

text \<open>
  The backwards loop with \<^verbatim>\<open>splice\<close> moves every obstacle once, keeps those still on
  screen in their order, and adds 10 to the score for each one it drops.
\<close>

lemma moveObstaclesLoop_eq:
  "i \<le> length obs \<Longrightarrow>
   moveObstaclesLoop i (obs, sc, shown) =
     (filter (\<lambda>ob. \<not> offScreen ob) (map drift (take i obs)) @ drop i obs,
      sc + 10 * int (length (filter offScreen (map drift (take i obs)))),
      if filter offScreen (map drift (take i obs)) = [] then shown
      else sc + 10 * int (length (filter offScreen (map drift (take i obs)))))"
proof (induction i arbitrary: obs sc shown)
  case 0
  then show ?case by simp
next
  case (Suc i)
  then have lt: "i < length obs" by simp
  have tk: "take (Suc i) obs = take i obs @ [obs ! i]"
    using lt by (simp add: take_Suc_conv_app_nth)
  show ?case
  proof (cases "offScreen (drift (obs ! i))")
    case True
    have len: "i \<le> length (take i obs @ drop (Suc i) obs)" using lt by simp
    have step: "moveObstaclesLoop (Suc i) (obs, sc, shown) =
                moveObstaclesLoop i (take i obs @ drop (Suc i) obs, sc + 10, sc + 10)"
      using True lt by (simp add: drift_def offScreen_def Let_def)
    show ?thesis
      unfolding step Suc.IH [OF len] using True lt by (simp add: tk filter_empty_conv)
  next
    case False
    have len: "i \<le> length (obs[i := drift (obs ! i)])" using lt by simp
    have step: "moveObstaclesLoop (Suc i) (obs, sc, shown) =
                moveObstaclesLoop i (obs[i := drift (obs ! i)], sc, shown)"
      using False lt by (simp add: drift_def offScreen_def Let_def)
    have dr: "drop i (obs[i := drift (obs ! i)]) = drift (obs ! i) # drop (Suc i) obs"
      using lt by (simp add: drop_update_cancel Cons_nth_drop_Suc [symmetric] upd_conv_take_nth_drop)
    show ?thesis
      unfolding step Suc.IH [OF len] using False lt by (simp add: tk dr filter_empty_conv)
  qed
qed


lemma moveObstacles_eq:
  "moveObstacles c =
     c\<lparr>scoreState :=
         (if filter offScreen (map drift (obstacles (gameStateRef c))) = [] then scoreState c
          else score (gameStateRef c)
               + 10 * int (length (filter offScreen (map drift (obstacles (gameStateRef c)))))),
       gameStateRef := (gameStateRef c)
         \<lparr>obstacles := filter (\<lambda>ob. \<not> offScreen ob) (map drift (obstacles (gameStateRef c))),
          score := score (gameStateRef c)
               + 10 * int (length (filter offScreen (map drift (obstacles (gameStateRef c)))))\<rparr>\<rparr>"
  unfolding moveObstacles_def Let_def
  by (subst moveObstaclesLoop_eq) simp_all

lemma gameStateRef_detectCollisions [simp]:
  "gameStateRef (detectCollisions c) = gameStateRef c"
  by (simp add: detectCollisions_def Let_def)

lemma gameMode_detectCollisions [simp]:
  "gameMode (detectCollisions c) = gameMode c"
  by (simp add: detectCollisions_def Let_def)

lemma gameLoop_gameOver: "gameOver c \<Longrightarrow> gameLoop d c = c"
  by (simp add: gameLoop_def)

lemma gameLoop_frozen:
  "\<not> gameOver c \<Longrightarrow> frozenFrame d c \<Longrightarrow>
   gameLoop d c = c\<lparr>gameStateRef :=
     fst (lagEffect d ((gameStateRef c)\<lparr>frameCount := frameCount (gameStateRef c) + 1\<rparr>))\<rparr>"
  by (simp add: gameLoop_def frozenFrame_def Let_def case_prod_beta)

lemma gameLoop_running:
  "\<not> gameOver c \<Longrightarrow> \<not> frozenFrame d c \<Longrightarrow>
   gameLoop d c = updateGame d (c\<lparr>gameStateRef :=
     (gameStateRef c)\<lparr>frameCount := frameCount (gameStateRef c) + 1,
                       shouldFreeze := (gameMode c \<noteq> G4 \<and> shouldFreeze (gameStateRef c))\<rparr>\<rparr>)"
  by (cases "gameMode c")
     (auto simp add: gameLoop_def frozenFrame_def lagEffect_def Let_def case_prod_beta split: if_splits)

subsection \<open>Runs and invariants\<close>

lemma run_Nil [simp]: "run [] c = c"
  by (simp add: run_def)

lemma run_snoc [simp]: "run (es @ [e]) c = step e (run es c)"
  by (simp add: run_def)

lemma run_Cons: "run (e # es) c = run es (step e c)"
  by (simp add: run_def)

lemma run_append: "run (es @ es') c = run es' (run es c)"
  by (simp add: run_def)

lemma run_invariant:
  assumes "P c" and "\<And>e c'. P c' \<Longrightarrow> P (step e c')"
  shows "P (run es c)"
  using assms by (induction es rule: rev_induct) simp_all

lemma gameStateRef_updateGame:
  "gameStateRef (updateGame d c) =
     (let st = spawnObstacles (gameMode c) d
                 ((gameStateRef c)\<lparr>rocket := moveRocket (gameMode c) (keys (gameStateRef c))
                                                 (rocket (gameStateRef c))\<rparr>)
      in st\<lparr>obstacles := filter (\<lambda>ob. \<not> offScreen ob) (map drift (obstacles st)),
            score := score st + 10 * int (length (filter offScreen (map drift (obstacles st))))\<rparr>)"
  by (simp add: updateGame_def Let_def moveObstacles_eq)

lemma spawnObstacles_fields [simp]:
  "rocket (spawnObstacles m d st) = rocket st"
  "keys (spawnObstacles m d st) = keys st"
  "score (spawnObstacles m d st) = score st"
  "frameCount (spawnObstacles m d st) = frameCount st"
  "shouldFreeze (spawnObstacles m d st) = shouldFreeze st"
  "freezeCounter (spawnObstacles m d st) = freezeCounter st"
  "lagFrames (spawnObstacles m d st) = lagFrames st"
  by (simp_all add: spawnObstacles_def)

lemma lagEffect_fields [simp]:
  "rocket (fst (lagEffect d st)) = rocket st"
  "obstacles (fst (lagEffect d st)) = obstacles st"
  "keys (fst (lagEffect d st)) = keys st"
  "score (fst (lagEffect d st)) = score st"
  "frameCount (fst (lagEffect d st)) = frameCount st"
  "lastObstacleFrame (fst (lagEffect d st)) = lastObstacleFrame st"
  "lagFrames (fst (lagEffect d st)) = lagFrames st"
  by (simp_all add: lagEffect_def Let_def)

lemma clamp_up_inField:
  "rocketInField r \<Longrightarrow> rocketInField (r\<lparr>y := max 0 (y r - moveSpeed m)\<rparr>)"
  by (simp add: rocketInField_def moveSpeed_def canvas_height_def)

lemma clamp_down_inField:
  "rocketInField r \<Longrightarrow> rocketInField (r\<lparr>y := min (canvas_height - height r) (y r + moveSpeed m)\<rparr>)"
  by (simp add: rocketInField_def moveSpeed_def canvas_height_def)

lemma clamp_left_inField:
  "rocketInField r \<Longrightarrow> rocketInField (r\<lparr>x := max 0 (x r - moveSpeed m)\<rparr>)"
  by (simp add: rocketInField_def moveSpeed_def canvas_width_def)

lemma clamp_right_inField:
  "rocketInField r \<Longrightarrow> rocketInField (r\<lparr>x := min (canvas_width - width r) (x r + moveSpeed m)\<rparr>)"
  by (simp add: rocketInField_def moveSpeed_def canvas_width_def)

lemma moveRocket_inField:
  assumes "rocketInField r"
  shows "rocketInField (moveRocket m ks r)"
proof -
  define r1 where "r1 = (if ks ''w'' \<or> ks ''arrowup''
                then r\<lparr>y := max 0 (y r - moveSpeed m)\<rparr> else r)"
  define r2 where "r2 = (if ks ''s'' \<or> ks ''arrowdown''
                then r1\<lparr>y := min (canvas_height - height r1) (y r1 + moveSpeed m)\<rparr> else r1)"
  define r3 where "r3 = (if ks ''a'' \<or> ks ''arrowleft''
                then r2\<lparr>x := max 0 (x r2 - moveSpeed m)\<rparr> else r2)"
  have eq: "moveRocket m ks r =
      (if ks ''d'' \<or> ks ''arrowright''
         then r3\<lparr>x := min (canvas_width - width r3) (x r3 + moveSpeed m)\<rparr> else r3)"
    unfolding moveRocket_def r1_def r2_def r3_def Let_def ..
  have 1: "rocketInField r1" unfolding r1_def using assms clamp_up_inField by simp
  have 2: "rocketInField r2" unfolding r2_def using 1 clamp_down_inField by simp
  have 3: "rocketInField r3" unfolding r3_def using 2 clamp_left_inField by simp
  show ?thesis unfolding eq using 3 clamp_right_inField by simp
qed

lemma gameLoop_inField:
  assumes "rocketInField (rocket (gameStateRef c))"
  shows "rocketInField (rocket (gameStateRef (gameLoop d c)))"
proof (cases "gameOver c")
  case True
  then show ?thesis using assms by (simp add: gameLoop_gameOver)
next
  case False
  show ?thesis
  proof (cases "frozenFrame d c")
    case True
    then show ?thesis using assms \<open>\<not> gameOver c\<close> by (simp add: gameLoop_frozen)
  next
    case False
    then show ?thesis
      using assms \<open>\<not> gameOver c\<close>
      by (simp add: gameLoop_running gameStateRef_updateGame Let_def moveRocket_inField)
  qed
qed

lemma step_inField:
  "rocketInField (rocket (gameStateRef c)) \<Longrightarrow> rocketInField (rocket (gameStateRef (step e c)))"
proof (cases e)
  case (Frame d)
  assume "rocketInField (rocket (gameStateRef c))"
  then show ?thesis using Frame by (simp add: gameLoop_inField)
next
  case Restart
  then show ?thesis
    by (simp add: handleRestart_def initialGameState_def rocketInField_def canvas_width_def
        canvas_height_def)
qed (simp_all add: handleKeyDown_def handleKeyUp_def)

lemma obstacles_spawnObstacles:
  "obstacles (spawnObstacles (gameMode c) d ((gameStateRef c)\<lparr>frameCount := frameCount (gameStateRef c) + 1, shouldFreeze := b, rocket := r\<rparr>))
     = obstacles (gameStateRef c) @ spawned d c"
  by (simp add: spawnObstacles_def spawned_def)

lemma gameLoop_running_obstacles:
  assumes "\<not> gameOver c" and "\<not> frozenFrame d c"
  shows "obstacles (gameStateRef (gameLoop d c)) =
           filter (\<lambda>ob. \<not> offScreen ob) (map drift (obstacles (gameStateRef c) @ spawned d c))"
  using assms
  by (simp add: gameLoop_running gameStateRef_updateGame Let_def obstacles_spawnObstacles)

lemma gameLoop_running_score:
  assumes "\<not> gameOver c" and "\<not> frozenFrame d c"
  shows "score (gameStateRef (gameLoop d c)) =
           score (gameStateRef c)
           + 10 * int (length (filter offScreen (map drift (obstacles (gameStateRef c) @ spawned d c))))"
  using assms
  by (simp add: gameLoop_running gameStateRef_updateGame Let_def obstacles_spawnObstacles)

lemma gameLoop_idle_obstacles:
  assumes "gameOver c \<or> frozenFrame d c"
  shows "obstacles (gameStateRef (gameLoop d c)) = obstacles (gameStateRef c)"
    and "score (gameStateRef (gameLoop d c)) = score (gameStateRef c)"
  using assms by (cases "gameOver c"; simp add: gameLoop_gameOver gameLoop_frozen)+

subsection \<open>Obstacles leave the spawning column at once\<close>

lemma entered_drift: "entered ob \<Longrightarrow> entered (drift ob)"
  by (simp add: entered_def drift_def)

lemma entered_drift_newObstacle: "entered (drift (newObstacle m d))"
  by (simp add: entered_def drift_def newObstacle_def Let_def obstacleSpeed_def)

lemma not_offScreen_drift_newObstacle: "\<not> offScreen (drift (newObstacle m d))"
  by (simp add: offScreen_def drift_def newObstacle_def Let_def obstacleSpeed_def canvas_width_def)

lemma gameLoop_entered:
  assumes "\<forall>ob \<in> set (obstacles (gameStateRef c)). entered ob"
  shows "\<forall>ob \<in> set (obstacles (gameStateRef (gameLoop d c))). entered ob"
proof (cases "gameOver c \<or> frozenFrame d c")
  case True
  then show ?thesis using assms by (simp add: gameLoop_idle_obstacles)
next
  case False
  then have eq: "obstacles (gameStateRef (gameLoop d c)) =
      filter (\<lambda>ob. \<not> offScreen ob) (map drift (obstacles (gameStateRef c) @ spawned d c))"
    by (simp add: gameLoop_running_obstacles)
  have "\<forall>ob \<in> set (spawned d c). entered (drift ob)"
    by (simp add: spawned_def entered_drift_newObstacle)
  with assms show ?thesis
    unfolding eq by (auto simp: entered_drift)
qed

lemma step_entered:
  assumes "\<forall>ob \<in> set (obstacles (gameStateRef c)). entered ob"
  shows "\<forall>ob \<in> set (obstacles (gameStateRef (step e c))). entered ob"
proof (cases e)
  case (Frame d)
  then show ?thesis using gameLoop_entered [OF assms] by simp
next
  case Restart
  then show ?thesis by (simp add: handleRestart_def initialGameState_def)
qed (use assms in \<open>simp_all add: handleKeyDown_def handleKeyUp_def\<close>)

lemma run_entered:
  "\<forall>ob \<in> set (obstacles (gameStateRef (run es (initSession m storage)))). entered ob"
proof (rule run_invariant [where P = "\<lambda>c. \<forall>ob \<in> set (obstacles (gameStateRef c)). entered ob"])
  show "\<forall>ob \<in> set (obstacles (gameStateRef (initSession m storage))). entered ob"
    by (simp add: initSession_def initialGameState_def)
qed (rule step_entered)

lemma gameLoop_spawn_last:
  assumes "\<not> gameOver c" and "\<not> frozenFrame d c"
    and "frameCount (gameStateRef c) + 1 - lastObstacleFrame (gameStateRef c) > spawnRate (gameMode c)"
  shows "obstacles (gameStateRef (gameLoop d c)) =
           filter (\<lambda>ob. \<not> offScreen ob) (map drift (obstacles (gameStateRef c)))
           @ [drift (newObstacle (gameMode c) d)]"
  using assms
  by (simp add: gameLoop_running_obstacles spawned_def not_offScreen_drift_newObstacle)



subsection \<open>The first two spawn intervals of an idle 5G session\<close>

lemma moveRocket_no_keys: "moveRocket m (\<lambda>k. False) r = r"
  by (simp add: moveRocket_def)

lemma not_frozenFrame_G5: "gameMode c = G5 \<Longrightarrow> \<not> frozenFrame d c"
  by (simp add: frozenFrame_def)

lemma gameOver_detectCollisions:
  "gameOver (detectCollisions c) =
     (gameOver c \<or> list_ex (checkCollision (rocket (gameStateRef c))) (obstacles (gameStateRef c)))"
  by (simp add: detectCollisions_def Let_def)

lemma gameLoop_running_fields:
  assumes "\<not> gameOver c" and "\<not> frozenFrame d c"
  shows "rocket (gameStateRef (gameLoop d c)) =
           moveRocket (gameMode c) (keys (gameStateRef c)) (rocket (gameStateRef c))"
    and "keys (gameStateRef (gameLoop d c)) = keys (gameStateRef c)"
    and "frameCount (gameStateRef (gameLoop d c)) = frameCount (gameStateRef c) + 1"
    and "lastObstacleFrame (gameStateRef (gameLoop d c)) =
           (if spawned d c = [] then lastObstacleFrame (gameStateRef c)
            else frameCount (gameStateRef c) + 1)"
    and "gameMode (gameLoop d c) = gameMode c"
    and "gameOver (gameLoop d c) =
           list_ex (checkCollision (rocket (gameStateRef (gameLoop d c))))
             (obstacles (gameStateRef (gameLoop d c)))"
  using assms
  by (simp_all add: gameLoop_running gameStateRef_updateGame Let_def spawnObstacles_def
      spawned_def updateGame_def gameOver_detectCollisions moveObstacles_eq)

lemma gameLoop_running_shouldFreeze:
  assumes "\<not> gameOver c" and "\<not> frozenFrame d c"
  shows "shouldFreeze (gameStateRef (gameLoop d c)) =
           (gameMode c \<noteq> G4 \<and> shouldFreeze (gameStateRef c))"
  using assms
  by (simp add: gameLoop_running gameStateRef_updateGame Let_def)

lemma idle5G_step:
  assumes inv: "idle5G n c" and n: "n < 121" and yd: "0 \<le> yDraw d" "yDraw d < 1"
  shows "idle5G (Suc n) (gameLoop d c)"
proof -
  let ?st = "gameStateRef c"
  from inv have m: "gameMode c = G5" and go: "\<not> gameOver c"
    and fc: "frameCount ?st = int n" and rk: "rocket ?st = rocket initialGameState"
    and ks: "keys ?st = (\<lambda>k. False)"
    by (simp_all add: idle5G_def)
  have nf: "\<not> frozenFrame d c" using m by (rule not_frozenFrame_G5)
  have size: "0 \<le> y (newObstacle G5 d) \<and> y (newObstacle G5 d) \<le> 600 - height (newObstacle G5 d)"
  proof -
    have "yDraw d * 570 \<le> 1 * 570" "yDraw d * 560 \<le> 1 * 560"
      using yd by (simp_all only: mult_le_cancel_right) auto
    then show ?thesis
      using yd by (simp add: newObstacle_def Let_def canvas_height_def)
  qed
  have obs: "obstacles (gameStateRef (gameLoop d c)) =
      filter (\<lambda>ob. \<not> offScreen ob) (map drift (obstacles ?st @ spawned d c))"
    using go nf by (rule gameLoop_running_obstacles)
  have new_obs: "obstacles (gameStateRef (gameLoop d c)) =
      (if n < 60 then []
       else if n = 60 then [drift (newObstacle G5 d)]
       else map drift (obstacles ?st))
     \<and> lastObstacleFrame (gameStateRef (gameLoop d c)) = (if n < 60 then 0 else 61)"
  proof (cases "n \<le> 60")
    case True
    with inv have o: "obstacles ?st = []" "lastObstacleFrame ?st = 0"
      by (simp_all add: idle5G_def)
    show ?thesis
      using True o m fc
      by (cases "n = 60")
         (simp_all add: obs gameLoop_running_fields(4) [OF go nf] spawned_def spawnRate_def
            not_offScreen_drift_newObstacle)
  next
    case False
    with inv obtain ob where o: "obstacles ?st = [ob]" "lastObstacleFrame ?st = 61"
      "firstObstacleAt n ob"
      by (auto simp add: idle5G_def)
    have "\<not> offScreen (drift ob)"
      using o(3) n by (auto simp add: firstObstacleAt_def offScreen_def drift_def)
    then show ?thesis
      using False o m fc n
      by (simp add: obs gameLoop_running_fields(4) [OF go nf] spawned_def spawnRate_def)
  qed
  have first: "\<exists>ob. obstacles (gameStateRef (gameLoop d c)) = [ob] \<and> firstObstacleAt (Suc n) ob"
    if "60 \<le> n"
  proof (cases "n = 60")
    case True
    have "firstObstacleAt 61 (drift (newObstacle G5 d))"
      using size
      by (auto simp add: firstObstacleAt_def drift_def newObstacle_def Let_def obstacleSpeed_def
          canvas_width_def)
    then show ?thesis using True new_obs by simp
  next
    case False
    with that inv obtain ob where o: "obstacles ?st = [ob]" "firstObstacleAt n ob"
      by (auto simp add: idle5G_def)
    have "firstObstacleAt (Suc n) (drift ob)"
      using o(2) by (simp add: firstObstacleAt_def drift_def)
    then show ?thesis using False that new_obs o by simp
  qed
  have nocol: "\<not> list_ex (checkCollision (rocket initialGameState))
                 (obstacles (gameStateRef (gameLoop d c)))"
  proof (cases "n < 60")
    case True
    then show ?thesis using new_obs by simp
  next
    case False
    then obtain ob where o: "obstacles (gameStateRef (gameLoop d c)) = [ob]"
      "firstObstacleAt (Suc n) ob"
      using first by auto
    then show ?thesis
      using n by (simp add: firstObstacleAt_def checkCollision_def initialGameState_def js_add_100_40)
  qed
  have rk': "rocket (gameStateRef (gameLoop d c)) = rocket initialGameState"
    and ks': "keys (gameStateRef (gameLoop d c)) = (\<lambda>k. False)"
    and fc': "frameCount (gameStateRef (gameLoop d c)) = int (Suc n)"
    using rk ks fc by (simp_all add: gameLoop_running_fields [OF go nf] moveRocket_no_keys)
  have m': "gameMode (gameLoop d c) = G5"
    using m by (simp add: gameLoop_running_fields [OF go nf])
  have go': "\<not> gameOver (gameLoop d c)"
  proof -
    have "gameOver (gameLoop d c) =
        list_ex (checkCollision (rocket (gameStateRef (gameLoop d c))))
          (obstacles (gameStateRef (gameLoop d c)))"
      by (rule gameLoop_running_fields [OF go nf])
    then show ?thesis using nocol rk' by simp
  qed
  show ?thesis
    unfolding idle5G_def using m' go' fc' rk' ks' new_obs first
    by (cases "n < 60") auto
qed

lemma idle5G_init: "idle5G 0 (initSession G5 storage)"
  by (simp add: idle5G_def initSession_def initialGameState_def)

lemma idle5G_run:
  assumes "\<forall>d \<in> set ds. 0 \<le> yDraw d \<and> yDraw d < 1" and "length ds \<le> 121"
  shows "idle5G (length ds) (run (map Frame ds) (initSession G5 storage))"
  using assms
proof (induction ds rule: rev_induct)
  case Nil
  then show ?case by (simp add: idle5G_init)
next
  case (snoc d ds)
  then have "idle5G (length ds) (run (map Frame ds) (initSession G5 storage))"
    by simp
  then have "idle5G (Suc (length ds)) (gameLoop d (run (map Frame ds) (initSession G5 storage)))"
    using snoc.prems by (intro idle5G_step) simp_all
  then show ?case by simp
qed

subsection \<open>Frozen frames\<close>

lemma frozenFrame_iff:
  "frozenFrame d c =
     (gameMode c = G4 \<and>
      ((frameCount (gameStateRef c) + 1) mod 120 = 0 \<and> freezeDraw d > 1 / 2
       \<or> shouldFreeze (gameStateRef c) \<and> freezeCounter (gameStateRef c) > 0))"
  by (auto simp add: frozenFrame_def lagEffect_def Let_def)

lemma gameLoop_frozen_fields:
  assumes "\<not> gameOver c" and "frozenFrame d c"
  shows "shouldFreeze (gameStateRef (gameLoop d c))"
    and "freezeCounter (gameStateRef (gameLoop d c)) =
           (if (frameCount (gameStateRef c) + 1) mod 120 = 0 \<and> freezeDraw d > 1 / 2 then 14
            else freezeCounter (gameStateRef c) - 1)"
    and "frameCount (gameStateRef (gameLoop d c)) = frameCount (gameStateRef c) + 1"
    and "rocket (gameStateRef (gameLoop d c)) = rocket (gameStateRef c)"
    and "obstacles (gameStateRef (gameLoop d c)) = obstacles (gameStateRef c)"
    and "score (gameStateRef (gameLoop d c)) = score (gameStateRef c)"
    and "lastObstacleFrame (gameStateRef (gameLoop d c)) = lastObstacleFrame (gameStateRef c)"
    and "keys (gameStateRef (gameLoop d c)) = keys (gameStateRef c)"
    and "gameMode (gameLoop d c) = gameMode c"
    and "\<not> gameOver (gameLoop d c)"
    and "localStorage (gameLoop d c) = localStorage c"
    and "highScore (gameLoop d c) = highScore c"
    and "scoreState (gameLoop d c) = scoreState c"
  using assms
  by (auto simp add: gameLoop_frozen frozenFrame_iff lagEffect_def Let_def)

text \<open>Key events write \<open>keys\<close> and nothing else.\<close>

lemma key_event_fields:
  "e = KeyDown key \<or> e = KeyUp key \<Longrightarrow>
   shouldFreeze (gameStateRef (step e c)) = shouldFreeze (gameStateRef c)
   \<and> freezeCounter (gameStateRef (step e c)) = freezeCounter (gameStateRef c)
   \<and> frameCount (gameStateRef (step e c)) = frameCount (gameStateRef c)
   \<and> rocket (gameStateRef (step e c)) = rocket (gameStateRef c)
   \<and> obstacles (gameStateRef (step e c)) = obstacles (gameStateRef c)
   \<and> score (gameStateRef (step e c)) = score (gameStateRef c)
   \<and> lastObstacleFrame (gameStateRef (step e c)) = lastObstacleFrame (gameStateRef c)
   \<and> gameMode (step e c) = gameMode c
   \<and> gameOver (step e c) = gameOver c
   \<and> localStorage (step e c) = localStorage c
   \<and> highScore (step e c) = highScore c
   \<and> scoreState (step e c) = scoreState c"
  by (auto simp add: handleKeyDown_def handleKeyUp_def)

lemma no_multiple_within_14:
  "(a + 1) mod 120 = 0 \<Longrightarrow> k \<le> 13 \<Longrightarrow> (a + 1 + int k + 1) mod 120 \<noteq> (0::int)"
  by presburger

lemma frozen_run:
  assumes c: "gameMode c = G4" "\<not> gameOver c"
    and trig: "(frameCount (gameStateRef c) + 1) mod 120 = 0" "freezeDraw d > 1 / 2"
    and es: "Restart \<notin> set es" "length (filter isFrame es) \<le> 14"
  shows "frozenPart (run es (gameLoop d c)) = frozenPart c
    \<and> shouldFreeze (gameStateRef (run es (gameLoop d c)))
    \<and> freezeCounter (gameStateRef (run es (gameLoop d c))) = 14 - int (length (filter isFrame es))
    \<and> frameCount (gameStateRef (run es (gameLoop d c)))
        = frameCount (gameStateRef c) + 1 + int (length (filter isFrame es))"
  using es
proof (induction es rule: rev_induct)
  case Nil
  have "frozenFrame d c" using c trig by (simp add: frozenFrame_iff)
  then show ?case
    using c trig by (simp add: frozenPart_def gameLoop_frozen_fields)
next
  case (snoc e es)
  let ?c' = "run es (gameLoop d c)"
  let ?k = "length (filter isFrame es)"
  from snoc have ih: "frozenPart ?c' = frozenPart c" "shouldFreeze (gameStateRef ?c')"
    "freezeCounter (gameStateRef ?c') = 14 - int ?k"
    "frameCount (gameStateRef ?c') = frameCount (gameStateRef c) + 1 + int ?k"
    by simp_all
  from ih(1) c have c': "gameMode ?c' = G4" "\<not> gameOver ?c'"
    by (simp_all add: frozenPart_def)
  show ?case
  proof (cases e)
    case (KeyDown key)
    then show ?thesis
      using ih key_event_fields [of e key ?c'] by (simp add: frozenPart_def)
  next
    case (KeyUp key)
    then show ?thesis
      using ih key_event_fields [of e key ?c'] by (simp add: frozenPart_def)
  next
    case (Frame d1)
    with snoc.prems have k: "?k \<le> 13" by simp
    have nomult: "(frameCount (gameStateRef ?c') + 1) mod 120 \<noteq> 0"
      unfolding ih(4) using trig(1) k by (rule no_multiple_within_14)
    have fz: "frozenFrame d1 ?c'"
      using c' ih k by (simp add: frozenFrame_iff)
    show ?thesis
      using Frame ih nomult k c
      by (simp add: frozenPart_def gameLoop_frozen_fields [OF c'(2) fz])
  next
    case Restart
    with snoc.prems show ?thesis by simp
  qed
qed

subsection \<open>Writing a score and reading it back\<close>

lemma digitsOf_decimal: "c \<in> set (digitsOf n) \<Longrightarrow> 48 \<le> (of_char c :: nat) \<and> (of_char c :: nat) \<le> 57"
proof (induction n arbitrary: c rule: digitsOf.induct)
  case (1 n)
  show ?case
  proof (cases "n < 10")
    case True
    with "1.prems" show ?thesis by (simp add: digitsOf.simps [of n])
  next
    case False
    with "1.prems" have "c \<in> set (digitsOf (n div 10)) \<or> c = char_of (48 + n mod 10)"
      by (auto simp add: digitsOf.simps [of n])
    then show ?thesis
    proof
      assume "c \<in> set (digitsOf (n div 10))"
      with False "1.IH" show ?thesis by simp
    next
      assume c: "c = char_of (48 + n mod 10)"
      have "n mod 10 < 10" by simp
      then have "(48 + n mod 10) mod 256 = 48 + n mod 10" by simp
      then show ?thesis unfolding c by simp
    qed
  qed
qed

lemma digitsOf_not_Nil: "digitsOf n \<noteq> []"
  by (subst digitsOf.simps) simp

lemma digitValue_decimal:
  "48 \<le> (of_char c :: nat) \<Longrightarrow> (of_char c :: nat) \<le> 57 \<Longrightarrow> digitValue c = Some (of_char c - 48)"
  by (simp add: digitValue_def Let_def)

lemma digitsValue_snoc:
  "digitsValue R (z @ [c]) =
     (case digitValue c of Some v \<Rightarrow> digitsValue R z * R + v | None \<Rightarrow> digitsValue R z)"
  by (simp add: digitsValue_def split: option.splits)

lemma digitValue_char_of: "k < 10 \<Longrightarrow> digitValue (char_of (48 + k)) = Some k"
proof -
  assume "k < 10"
  then have "(48 + k) mod 256 = 48 + k" by simp
  then show ?thesis using \<open>k < 10\<close> by (simp add: digitValue_def Let_def)
qed

lemma digitsValue_digitsOf: "digitsValue 10 (digitsOf n) = n"
proof (induction n rule: digitsOf.induct)
  case (1 n)
  show ?case
  proof (cases "n < 10")
    case True
    then show ?thesis
      using digitsValue_snoc [of 10 "[]" "char_of (48 + n)"]
      by (simp add: digitsOf.simps [of n] digitValue_char_of digitsValue_def)
  next
    case False
    then have "digitsValue 10 (digitsOf (n div 10)) = n div 10"
      using "1.IH" by simp
    then show ?thesis
      using False by (simp add: digitsOf.simps [of n] digitsValue_snoc digitValue_char_of)
  qed
qed

lemma parseInt_plain:
  assumes "dropWhile isWhiteSpace z = z" and "z \<noteq> []"
    and "hd z \<noteq> CHR ''-''" and "hd z \<noteq> CHR ''+''"
    and "take 2 z \<noteq> ''0x''" and "take 2 z \<noteq> ''0X''"
    and tw: "takeWhile (radixDigit 10) z = z"
  shows "parseInt z = Num (int (digitsValue 10 z))"
  using assms(1-6) by (simp add: parseInt_def Let_def tw)

lemma parseInt_minus:
  assumes "z \<noteq> []" and "take 2 z \<noteq> ''0x''" and "take 2 z \<noteq> ''0X''"
    and tw: "takeWhile (radixDigit 10) z = z"
  shows "parseInt (CHR ''-'' # z) = Num (- int (digitsValue 10 z))"
  using assms(1-3) by (simp add: parseInt_def Let_def isWhiteSpace_def tw)

lemma parseInt_digits:
  assumes ne: "z \<noteq> []" and dec: "\<forall>c \<in> set z. 48 \<le> (of_char c :: nat) \<and> (of_char c :: nat) \<le> 57"
  shows "parseInt z = Num (int (digitsValue 10 z))"
    and "parseInt (CHR ''-'' # z) = Num (- int (digitsValue 10 z))"
proof -
  obtain c0 cs where z: "z = c0 # cs" using ne by (cases z) auto
  have c0: "48 \<le> (of_char c0 :: nat)" "(of_char c0 :: nat) \<le> 57" using dec z by simp_all
  have nws: "dropWhile isWhiteSpace z = z"
    using c0 unfolding z by (auto simp add: isWhiteSpace_def)
  have nsign: "hd z \<noteq> CHR ''-''" "hd z \<noteq> CHR ''+''" using c0 unfolding z by auto
  have nhex: "take 2 z \<noteq> ''0x''" "take 2 z \<noteq> ''0X''"
  proof -
    have "CHR ''x'' \<notin> set z" "CHR ''X'' \<notin> set z" using dec by auto
    moreover have "set (take 2 z) \<subseteq> set z" by (rule set_take_subset)
    ultimately show "take 2 z \<noteq> ''0x''" "take 2 z \<noteq> ''0X''" by auto
  qed
  have all: "takeWhile (radixDigit 10) z = z"
    using dec by (auto simp add: takeWhile_eq_all_conv radixDigit_def digitValue_decimal)
  show "parseInt z = Num (int (digitsValue 10 z))"
    using nws ne nsign nhex all by (rule parseInt_plain)
  show "parseInt (CHR ''-'' # z) = Num (- int (digitsValue 10 z))"
    using ne nhex all by (rule parseInt_minus)
qed

lemma parseInt_toString: "parseInt (toString n) = Num n"
  using parseInt_digits [of "digitsOf (nat n)"] parseInt_digits [of "digitsOf (nat (- n))"]
  by (simp add: toString_def digitsOf_not_Nil digitsOf_decimal digitsValue_digitsOf)

lemma toString_not_Nil: "toString n \<noteq> []"
  by (simp add: toString_def digitsOf_not_Nil)


subsection \<open>The persisted high score\<close>

lemma gameLoop_persist:
  "localStorage (gameLoop d c) =
     (if \<not> gameOver c \<and> gameOver (gameLoop d c)
         \<and> js_gt (score (gameStateRef (gameLoop d c))) (highScore c)
      then (localStorage c)(storageKey (gameMode c) \<mapsto> toString (score (gameStateRef (gameLoop d c))))
      else localStorage c)"
  "highScore (gameLoop d c) =
     (if \<not> gameOver c \<and> gameOver (gameLoop d c)
         \<and> js_gt (score (gameStateRef (gameLoop d c))) (highScore c)
      then Num (score (gameStateRef (gameLoop d c)))
      else highScore c)"
  "gameMode (gameLoop d c) = gameMode c"
proof -
  consider "gameOver c" | "\<not> gameOver c" "frozenFrame d c" | "\<not> gameOver c" "\<not> frozenFrame d c"
    by blast
  then have "localStorage (gameLoop d c) =
     (if \<not> gameOver c \<and> gameOver (gameLoop d c)
         \<and> js_gt (score (gameStateRef (gameLoop d c))) (highScore c)
      then (localStorage c)(storageKey (gameMode c) \<mapsto> toString (score (gameStateRef (gameLoop d c))))
      else localStorage c)
   \<and> highScore (gameLoop d c) =
     (if \<not> gameOver c \<and> gameOver (gameLoop d c)
         \<and> js_gt (score (gameStateRef (gameLoop d c))) (highScore c)
      then Num (score (gameStateRef (gameLoop d c)))
      else highScore c)
   \<and> gameMode (gameLoop d c) = gameMode c"
  proof cases
    case 1
    then show ?thesis by (simp add: gameLoop_gameOver)
  next
    case 2
    then show ?thesis by (simp add: gameLoop_frozen_fields)
  next
    case 3
    then show ?thesis
      by (simp add: gameLoop_running updateGame_def Let_def moveObstacles_eq detectCollisions_def)
  qed
  then show "localStorage (gameLoop d c) =
     (if \<not> gameOver c \<and> gameOver (gameLoop d c)
         \<and> js_gt (score (gameStateRef (gameLoop d c))) (highScore c)
      then (localStorage c)(storageKey (gameMode c) \<mapsto> toString (score (gameStateRef (gameLoop d c))))
      else localStorage c)"
    and "highScore (gameLoop d c) =
     (if \<not> gameOver c \<and> gameOver (gameLoop d c)
         \<and> js_gt (score (gameStateRef (gameLoop d c))) (highScore c)
      then Num (score (gameStateRef (gameLoop d c)))
      else highScore c)"
    and "gameMode (gameLoop d c) = gameMode c"
    by simp_all
qed

lemma gameLoop_score_mono: "score (gameStateRef c) \<le> score (gameStateRef (gameLoop d c))"
proof (cases "gameOver c \<or> frozenFrame d c")
  case True
  then show ?thesis by (simp add: gameLoop_idle_obstacles)
next
  case False
  then show ?thesis by (simp add: gameLoop_running_score)
qed

lemma readHighScore_written:
  "readHighScore (storage(storageKey m \<mapsto> toString n)) m = Num n"
  by (simp add: readHighScore_def toString_not_Nil parseInt_toString)

lemma step_inSync:
  assumes "inSync m c"
  shows "inSync m (step e c)"
proof (cases e)
  case (Frame d)
  then show ?thesis
    using assms gameLoop_score_mono [of c d]
    by (simp add: inSync_def gameLoop_persist readHighScore_written)
next
  case Restart
  then show ?thesis
    using assms by (simp add: inSync_def handleRestart_def initialGameState_def)
qed (use assms in \<open>simp_all add: inSync_def handleKeyDown_def handleKeyUp_def\<close>)

lemma run_inSync: "inSync m (run es (initSession m storage))"
proof (rule run_invariant [where P = "inSync m"])
  show "inSync m (initSession m storage)"
    by (simp add: inSync_def initSession_def initialGameState_def)
qed (rule step_inSync)

lemma step_storage_change:
  assumes "localStorage (step e c) \<noteq> localStorage c"
  shows "isFrame e \<and> \<not> gameOver c \<and> gameOver (step e c)
    \<and> js_gt (score (gameStateRef (step e c))) (highScore c)
    \<and> localStorage (step e c) =
        (localStorage c)(storageKey (gameMode c) \<mapsto> toString (score (gameStateRef (step e c))))"
proof (cases e)
  case (Frame d)
  with assms show ?thesis
    by (simp add: gameLoop_persist(1) split: if_splits)
next
  case Restart
  with assms show ?thesis by (simp add: handleRestart_def)
qed (use assms in \<open>simp_all add: handleKeyDown_def handleKeyUp_def\<close>)

lemma step_score_mono:
  "e \<noteq> Restart \<Longrightarrow> score (gameStateRef c) \<le> score (gameStateRef (step e c))"
  by (cases e) (simp_all add: handleKeyDown_def handleKeyUp_def gameLoop_score_mono)

subsection \<open>Collision detector\<close>

text \<open>
  Claim C8 says \<open>checkCollision\<close> is true exactly when the boxes overlap with strict
  inequalities. The far edges \<^verbatim>\<open>x + width\<close> and \<^verbatim>\<open>y + height\<close> are double additions. For
  the rocket \<open>{100, 72, 40, 60}\<close> and an obstacle \<open>{136, 42 + 2^-47, 30, 30}\<close> all four strict
  inequalities hold of the exact edges, the boxes overlapping in a strip of height \<open>2^-47\<close>;
  but \<open>42 + 2^-47 + 30\<close> rounds to 72, the test \<^verbatim>\<open>72 < 72\<close> fails and no collision is
  reported.
\<close>

theorem checkCollision_rounded_edge_counterexample:
  "\<not> checkCollision \<lparr>x = 100, y = 72, width = 40, height = 60, speed = 5\<rparr>
                     \<lparr>x = 136, y = 42 + 1 / 2 ^ 47, width = 30, height = 30, speed = 4, type = meteor\<rparr>
   \<and> (100::real) < 136 + 30 \<and> (136::real) < 100 + 40
   \<and> (72::real) < 42 + 1 / 2 ^ 47 + 30 \<and> (42::real) + 1 / 2 ^ 47 < 72 + 60"
proof -
  have "js_add (42 + 1 / 2 ^ 47) 30 = 72"
    by code_simp
  then have "\<not> checkCollision \<lparr>x = 100, y = 72, width = 40, height = 60, speed = 5\<rparr>
      \<lparr>x = 136, y = 42 + 1 / 2 ^ 47, width = 30, height = 30, speed = 4, type = meteor\<rparr>"
    by (simp add: checkCollision_def)
  then show ?thesis by simp
qed

text \<open>
  Claim C8, amended. \<open>checkCollision\<close> is a function of the two rectangles that is true
  exactly when four strict comparisons hold: each rectangle's near edge is below the
  other's far edge, the far edges \<open>x + width\<close> and \<open>y + height\<close> being computed by double
  addition. When these sums are exact, as they are for integer coordinates and extents
  with far edges below \<open>2^53\<close>, and the extents are positive, it is true exactly when the
  open boxes share a point. A rectangle whose computed far edge equals the other's near
  edge does not collide with it. It is false for \<open>{0,0,10,10}\<close> against \<open>{20,0,10,10}\<close> and
  true for \<open>{0,0,10,10}\<close> against \<open>{5,5,10,10}\<close>.
\<close>

theorem checkCollision_overlap_when_exact:
  "checkCollision a b =
     (x a < js_add (x b) (width b) \<and> x b < js_add (x a) (width a) \<and>
      y a < js_add (y b) (height b) \<and> y b < js_add (y a) (height a))
   \<and> (exactSums a \<and> exactSums b
        \<and> 0 < width a \<and> 0 < height a \<and> 0 < width b \<and> 0 < height b \<longrightarrow>
      checkCollision a b =
        (\<exists>px py. x a < px \<and> px < x a + width a \<and> y a < py \<and> py < y a + height a \<and>
                 x b < px \<and> px < x b + width b \<and> y b < py \<and> py < y b + height b))
   \<and> (integerRect a \<longrightarrow> exactSums a)
   \<and> (js_add (x a) (width a) = x b \<or> js_add (x b) (width b) = x a
        \<or> js_add (y a) (height a) = y b \<or> js_add (y b) (height b) = y a
        \<longrightarrow> \<not> checkCollision a b)
   \<and> \<not> checkCollision \<lparr>x = 0, y = 0, width = 10, height = 10, speed = s1\<rparr>
                        \<lparr>x = 20, y = 0, width = 10, height = 10, speed = s2\<rparr>
   \<and> checkCollision \<lparr>x = 0, y = 0, width = 10, height = 10, speed = s1\<rparr>
                      \<lparr>x = 5, y = 5, width = 10, height = 10, speed = s2\<rparr>"
proof -
  have tests: "checkCollision a b =
     (x a < js_add (x b) (width b) \<and> x b < js_add (x a) (width a) \<and>
      y a < js_add (y b) (height b) \<and> y b < js_add (y a) (height a))"
    by (auto simp add: checkCollision_def)
  have overlap: "checkCollision a b =
        (\<exists>px py. x a < px \<and> px < x a + width a \<and> y a < py \<and> py < y a + height a \<and>
                 x b < px \<and> px < x b + width b \<and> y b < py \<and> py < y b + height b)"
    if ex: "exactSums a" "exactSums b"
      and pos: "0 < width a \<and> 0 < height a \<and> 0 < width b \<and> 0 < height b"
  proof
    assume "checkCollision a b"
    then have col: "x a < x b + width b \<and> x b < x a + width a \<and>
        y a < y b + height b \<and> y b < y a + height a"
      using ex by (simp add: tests exactSums_def)
    define px where "px = (max (x a) (x b) + min (x a + width a) (x b + width b)) / 2"
    define py where "py = (max (y a) (y b) + min (y a + height a) (y b + height b)) / 2"
    from col pos have "x a < px \<and> px < x a + width a \<and> x b < px \<and> px < x b + width b"
      unfolding px_def by (auto simp: max_def min_def field_simps)
    moreover from col pos have "y a < py \<and> py < y a + height a \<and> y b < py \<and> py < y b + height b"
      unfolding py_def by (auto simp: max_def min_def field_simps)
    ultimately show "\<exists>px py. x a < px \<and> px < x a + width a \<and> y a < py \<and> py < y a + height a \<and>
                 x b < px \<and> px < x b + width b \<and> y b < py \<and> py < y b + height b"
      by blast
  next
    assume "\<exists>px py. x a < px \<and> px < x a + width a \<and> y a < py \<and> py < y a + height a \<and>
                 x b < px \<and> px < x b + width b \<and> y b < py \<and> py < y b + height b"
    then have "x a < x b + width b \<and> x b < x a + width a \<and>
        y a < y b + height b \<and> y b < y a + height a"
      by force
    then show "checkCollision a b"
      using ex by (simp add: tests exactSums_def)
  qed
  have exact: "exactSums a" if "integerRect a"
    using that by (simp add: integerRect_def exactSums_def js_add_Ints)
  have touch: "\<not> checkCollision a b"
    if "js_add (x a) (width a) = x b \<or> js_add (x b) (width b) = x a
        \<or> js_add (y a) (height a) = y b \<or> js_add (y b) (height b) = y a"
    using that by (auto simp add: tests)
  have sums: "js_add 20 10 = 30" "js_add 0 10 = 10" "js_add 5 10 = 15"
    using js_add_Ints [of 20 10] js_add_Ints [of 0 10] js_add_Ints [of 5 10] by simp_all
  have apart: "\<not> checkCollision \<lparr>x = 0, y = 0, width = 10, height = 10, speed = s1\<rparr>
                        \<lparr>x = 20, y = 0, width = 10, height = 10, speed = s2\<rparr>"
    by (simp add: checkCollision_def sums)
  have over: "checkCollision \<lparr>x = 0, y = 0, width = 10, height = 10, speed = s1\<rparr>
                      \<lparr>x = 5, y = 5, width = 10, height = 10, speed = s2\<rparr>"
    by (simp add: checkCollision_def sums)
  from tests overlap exact touch apart over show ?thesis
    by blast
qed

text \<open>
  The rocket-sized box \<open>{0,0,10,10}\<close> has integer coordinates, so its sums are exact. It
  collides with the obstacle at \<open>x = 9\<close>, whose box shares a point with it, and not with
  the obstacle at \<open>x = 10\<close>, which starts at its computed right edge.
\<close>

theorem checkCollision_overlap_when_exact_witness:
  "integerRect \<lparr>x = 0, y = 0, width = 10, height = 10, speed = 5\<rparr>
   \<and> integerRect \<lparr>x = 9, y = 0, width = 10, height = 10, speed = 4, type = meteor\<rparr>
   \<and> exactSums \<lparr>x = 0, y = 0, width = 10, height = 10, speed = 5\<rparr>
   \<and> exactSums \<lparr>x = 9, y = 0, width = 10, height = 10, speed = 4, type = meteor\<rparr>
   \<and> checkCollision \<lparr>x = 0, y = 0, width = 10, height = 10, speed = 5\<rparr>
                      \<lparr>x = 9, y = 0, width = 10, height = 10, speed = 4, type = meteor\<rparr>
   \<and> (\<exists>px py. (0::real) < px \<and> px < 0 + 10 \<and> (0::real) < py \<and> py < 0 + 10 \<and>
                 9 < px \<and> px < 9 + 10 \<and> 0 < py \<and> py < 0 + 10)
   \<and> js_add 0 10 = 10
   \<and> \<not> checkCollision \<lparr>x = 0, y = 0, width = 10, height = 10, speed = 5\<rparr>
                        \<lparr>x = 10, y = 0, width = 10, height = 10, speed = 4, type = meteor\<rparr>"
proof -
  let ?a = "\<lparr>x = 0, y = 0, width = 10, height = 10, speed = 5\<rparr>"
  let ?b = "\<lparr>x = 9, y = 0, width = 10, height = 10, speed = 4, type = meteor\<rparr>"
  let ?t = "\<lparr>x = 10, y = 0, width = 10, height = 10, speed = 4, type = meteor\<rparr>"
  have ia: "integerRect ?a" and ib: "integerRect ?b"
    by (simp_all add: integerRect_def)
  have ea: "exactSums ?a"
    using ia checkCollision_overlap_when_exact [of ?a ?b 0 0] by blast
  have eb: "exactSums ?b"
    using ib checkCollision_overlap_when_exact [of ?b ?a 0 0] by blast
  have edge: "js_add 0 10 = 10"
    using ea by (simp add: exactSums_def)
  have col: "checkCollision ?a ?b"
    using ea eb by (simp add: checkCollision_def exactSums_def)
  have pt: "\<exists>px py. (0::real) < px \<and> px < 0 + 10 \<and> (0::real) < py \<and> py < 0 + 10 \<and>
                 9 < px \<and> px < 9 + 10 \<and> 0 < py \<and> py < 0 + 10"
  proof -
    have "checkCollision ?a ?b =
        (\<exists>px py. x ?a < px \<and> px < x ?a + width ?a \<and> y ?a < py \<and> py < y ?a + height ?a \<and>
                 x ?b < px \<and> px < x ?b + width ?b \<and> y ?b < py \<and> py < y ?b + height ?b)"
      by (rule checkCollision_overlap_when_exact
            [of ?a ?b 0 0, THEN conjunct2, THEN conjunct1, THEN mp])
         (use ea eb in simp)
    with col have "\<exists>px py. x ?a < px \<and> px < x ?a + width ?a \<and> y ?a < py \<and> py < y ?a + height ?a \<and>
                 x ?b < px \<and> px < x ?b + width ?b \<and> y ?b < py \<and> py < y ?b + height ?b"
      by blast
    then show ?thesis by simp
  qed
  have nt: "\<not> checkCollision ?a ?t"
    using edge checkCollision_overlap_when_exact [of ?a ?t 0 0] by simp
  from ia ib ea eb col pt edge nt show ?thesis by blast
qed

subsection \<open>Restart\<close>

text \<open>
  Claim C9. The restart command sets \<open>frameCount\<close> and \<open>score\<close> (the ref's and the
  displayed one) to 0 and empties the obstacle array; \<open>localStorage\<close>, hence every
  persisted high score, the \<open>highScore\<close> state and the mode are as before.
\<close>

theorem handleRestart_resets:
  "frameCount (gameStateRef (step Restart c)) = 0
   \<and> score (gameStateRef (step Restart c)) = 0
   \<and> scoreState (step Restart c) = 0
   \<and> obstacles (gameStateRef (step Restart c)) = []
   \<and> localStorage (step Restart c) = localStorage c
   \<and> highScore (step Restart c) = highScore c
   \<and> gameMode (step Restart c) = gameMode c"
  by (simp add: handleRestart_def initialGameState_def)

subsection \<open>Mode parameters\<close>

text \<open>
  Claim C2 says the 5G spawn interval is strictly below the 4G one. Line 122 reads
  \<^verbatim>\<open>gameMode === "5G" ? 60 : 50; // 5G: more frequent\<close>: the intervals are 60 frames for
  5G and 50 for 4G, so 5G is not the smaller one. After 55 idle frames with the same
  draws a 4G session has its first obstacle and a 5G session has none.
\<close>

theorem spawnRate_premium_not_smaller:
  "spawnRate G5 = 60 \<and> spawnRate G4 = 50 \<and> \<not> spawnRate G5 < spawnRate G4
   \<and> length (obstacles (gameStateRef
        (run (replicate 55 (Frame sampleDraws)) (initSession G4 emptyStorage)))) = 1
   \<and> length (obstacles (gameStateRef
        (run (replicate 55 (Frame sampleDraws)) (initSession G5 emptyStorage)))) = 0"
proof -
  have rates: "spawnRate G5 = 60 \<and> spawnRate G4 = 50 \<and> \<not> spawnRate G5 < spawnRate G4"
    by (simp add: spawnRate_def)
  have low: "length (obstacles (gameStateRef
        (run (replicate 55 (Frame sampleDraws)) (initSession G4 emptyStorage)))) = 1"
    by code_simp
  have high: "length (obstacles (gameStateRef
        (run (replicate 55 (Frame sampleDraws)) (initSession G5 emptyStorage)))) = 0"
    by code_simp
  from rates low high show ?thesis by blast
qed

subsection \<open>Rocket bounds\<close>

text \<open>
  Claim C4. After any sequence of key presses, key releases, frames and restarts from the
  start of a session, in either mode and with any stored data, the rocket's position
  satisfies \<open>0 \<le> x \<le> 800 - 40\<close> and \<open>0 \<le> y \<le> 600 - 60\<close>.
\<close>

theorem rocket_stays_in_field:
  "0 \<le> x (rocket (gameStateRef (run es (initSession m storage))))
   \<and> x (rocket (gameStateRef (run es (initSession m storage)))) \<le> 800 - 40
   \<and> 0 \<le> y (rocket (gameStateRef (run es (initSession m storage))))
   \<and> y (rocket (gameStateRef (run es (initSession m storage)))) \<le> 600 - 60"
proof -
  have "rocketInField (rocket (gameStateRef (initSession m storage)))"
    by (simp add: initSession_def initialGameState_def rocketInField_def canvas_width_def
        canvas_height_def)
  then have "rocketInField (rocket (gameStateRef (run es (initSession m storage))))"
    by (rule run_invariant [where P = "\<lambda>c. rocketInField (rocket (gameStateRef c))"])
       (rule step_inField)
  then show ?thesis
    by (simp add: rocketInField_def canvas_width_def canvas_height_def)
qed

subsection \<open>Removal and scoring\<close>

text \<open>
  Claim C6. On a frame that is neither frozen nor after game over, the obstacles left are
  exactly the moved obstacles (those of the previous frame and the one just spawned, each
  shifted by its speed) whose right edge is not below 0, in their order, and the score
  grows by 10 for each moved obstacle whose right edge is below 0. On every other frame
  both the obstacles and the score stay as they are, so a removal and its 10 points never
  come apart.
\<close>

theorem removal_scores_ten:
  "(\<not> gameOver c \<and> \<not> frozenFrame d c \<longrightarrow>
      obstacles (gameStateRef (gameLoop d c)) =
        filter (\<lambda>ob. \<not> offScreen ob) (map drift (obstacles (gameStateRef c) @ spawned d c))
      \<and> score (gameStateRef (gameLoop d c)) =
        score (gameStateRef c)
        + 10 * int (length (filter offScreen (map drift (obstacles (gameStateRef c) @ spawned d c)))))
   \<and> (gameOver c \<or> frozenFrame d c \<longrightarrow>
      obstacles (gameStateRef (gameLoop d c)) = obstacles (gameStateRef c)
      \<and> score (gameStateRef (gameLoop d c)) = score (gameStateRef c))"
  using gameLoop_running_obstacles [of c d] gameLoop_running_score [of c d]
    gameLoop_idle_obstacles [of c d]
  by blast


text \<open>
  In \<open>leavingSession\<close> the next frame moves the first obstacle to \<open>x = - 32\<close>, whose right
  edge \<open>- 2\<close> is below 0: it is removed, the other one stays at \<open>x = 212\<close>, and the score
  goes from 0 to 10.
\<close>

theorem removal_scores_ten_witness:
  "\<not> gameOver leavingSession \<and> \<not> frozenFrame sampleDraws leavingSession
   \<and> map x (obstacles (gameStateRef (gameLoop sampleDraws leavingSession))) = [212]
   \<and> score (gameStateRef (gameLoop sampleDraws leavingSession)) = 10
   \<and> score (gameStateRef leavingSession) = 0"
  using removal_scores_ten [of leavingSession sampleDraws]
  by (simp add: leavingSession_def initSession_def initialGameState_def frozenFrame_def
      spawned_def spawnRate_def drift_def offScreen_def)

subsection \<open>No obstacle rests on the right edge\<close>

text \<open>
  Claim C10. A running frame that spawns an obstacle moves it in the same frame: at the
  end of the frame it is the last obstacle of the array and its \<open>x\<close> is the canvas width
  less its speed. Hence, after any sequence of events from the start of a session, no
  obstacle has \<open>x\<close> equal to the canvas width 800.
\<close>

theorem spawned_obstacle_already_moved:
  "(\<not> gameOver c \<and> \<not> frozenFrame d c
      \<and> frameCount (gameStateRef c) + 1 - lastObstacleFrame (gameStateRef c) > spawnRate (gameMode c)
    \<longrightarrow> obstacles (gameStateRef (gameLoop d c)) \<noteq> []
        \<and> last (obstacles (gameStateRef (gameLoop d c))) = drift (newObstacle (gameMode c) d)
        \<and> x (last (obstacles (gameStateRef (gameLoop d c))))
            = canvas_width - speed (last (obstacles (gameStateRef (gameLoop d c)))))
   \<and> (\<forall>ob \<in> set (obstacles (gameStateRef (run es (initSession m storage)))). x ob \<noteq> 800)"
proof (intro conjI impI)
  assume run: "\<not> gameOver c \<and> \<not> frozenFrame d c
      \<and> frameCount (gameStateRef c) + 1 - lastObstacleFrame (gameStateRef c) > spawnRate (gameMode c)"
  then have eq: "obstacles (gameStateRef (gameLoop d c)) =
           filter (\<lambda>ob. \<not> offScreen ob) (map drift (obstacles (gameStateRef c)))
           @ [drift (newObstacle (gameMode c) d)]"
    by (simp add: gameLoop_spawn_last)
  show "obstacles (gameStateRef (gameLoop d c)) \<noteq> []"
    unfolding eq by simp
  show "last (obstacles (gameStateRef (gameLoop d c))) = drift (newObstacle (gameMode c) d)"
    unfolding eq by simp
  show "x (last (obstacles (gameStateRef (gameLoop d c))))
            = canvas_width - speed (last (obstacles (gameStateRef (gameLoop d c))))"
    unfolding eq by (simp add: drift_def newObstacle_def Let_def)
next
  show "\<forall>ob \<in> set (obstacles (gameStateRef (run es (initSession m storage)))). x ob \<noteq> 800"
    using run_entered [of es m storage] by (auto simp: entered_def canvas_width_def)
qed

text \<open>
  The 61st frame of an idle 5G session spawns the first obstacle; at the end of that frame
  it stands at \<open>x = 796\<close>.
\<close>

theorem spawned_obstacle_already_moved_witness:
  "\<not> gameOver (run (replicate 60 (Frame sampleDraws)) (initSession G5 emptyStorage))
   \<and> \<not> frozenFrame sampleDraws (run (replicate 60 (Frame sampleDraws)) (initSession G5 emptyStorage))
   \<and> frameCount (gameStateRef (run (replicate 60 (Frame sampleDraws)) (initSession G5 emptyStorage))) + 1
       - lastObstacleFrame (gameStateRef (run (replicate 60 (Frame sampleDraws)) (initSession G5 emptyStorage)))
       > spawnRate G5
   \<and> map x (obstacles (gameStateRef (run (replicate 61 (Frame sampleDraws)) (initSession G5 emptyStorage)))) = [796]
   \<and> 800 \<notin> set (map x (obstacles (gameStateRef (run (replicate 61 (Frame sampleDraws)) (initSession G5 emptyStorage)))))"
proof -
  have 1: "\<not> gameOver (run (replicate 60 (Frame sampleDraws)) (initSession G5 emptyStorage))"
    by code_simp
  have 2: "\<not> frozenFrame sampleDraws (run (replicate 60 (Frame sampleDraws)) (initSession G5 emptyStorage))"
    by code_simp
  have 3: "frameCount (gameStateRef (run (replicate 60 (Frame sampleDraws)) (initSession G5 emptyStorage))) + 1
       - lastObstacleFrame (gameStateRef (run (replicate 60 (Frame sampleDraws)) (initSession G5 emptyStorage)))
       > spawnRate G5"
    by code_simp
  have 4: "map x (obstacles (gameStateRef (run (replicate 61 (Frame sampleDraws)) (initSession G5 emptyStorage)))) = [796]"
    by code_simp
  have 5: "800 \<notin> set (map x (obstacles (gameStateRef (run (replicate 61 (Frame sampleDraws)) (initSession G5 emptyStorage)))))"
    using spawned_obstacle_already_moved
      [of "run (replicate 60 (Frame sampleDraws)) (initSession G5 emptyStorage)" sampleDraws
          "replicate 61 (Frame sampleDraws)" G5 emptyStorage]
    by auto
  from 1 2 3 4 5 show ?thesis by blast
qed

subsection \<open>Reading the persisted high score\<close>

text \<open>
  Claim C3 says the high score read at session start is 0 both for a missing and for an
  unparseable entry. The code guards \<^verbatim>\<open>parseInt\<close> by the truthiness of the stored
  string only, so an entry such as \<^verbatim>\<open>"abc"\<close> gives \<^verbatim>\<open>NaN\<close>, not 0.
\<close>

theorem highScore_unparseable_counterexample:
  "highScore (initSession G5 (emptyStorage(storageKey G5 \<mapsto> ''abc''))) \<noteq> Num 0"
  by (simp add: initSession_def readHighScore_def parseInt_def Let_def isWhiteSpace_def
      radixDigit_def digitValue_def)

text \<open>
  Claim C3, amended. The high score read at session start is 0 when the entry is missing
  or is the empty string; for a non-empty entry it is the value of \<^verbatim>\<open>parseInt\<close>, which
  is \<^verbatim>\<open>NaN\<close> when the entry does not start with an integer. The read is a total
  function to numbers: no error is raised in any case.
\<close>

theorem highScore_read_at_start:
  "(storage (storageKey m) = None \<or> storage (storageKey m) = Some []
      \<longrightarrow> highScore (initSession m storage) = Num 0)
   \<and> (storage (storageKey m) = Some saved \<and> saved \<noteq> []
      \<longrightarrow> highScore (initSession m storage) = parseInt saved)
   \<and> (storage (storageKey m) = Some saved \<and> saved \<noteq> [] \<and> parseInt saved = NaN
      \<longrightarrow> highScore (initSession m storage) = NaN)"
  by (auto simp add: initSession_def readHighScore_def)

theorem highScore_read_at_start_witness:
  "highScore (initSession G4 emptyStorage) = Num 0
   \<and> highScore (initSession G4 (emptyStorage(storageKey G4 \<mapsto> ''''))) = Num 0
   \<and> highScore (initSession G4 (emptyStorage(storageKey G4 \<mapsto> ''120''))) = Num 120
   \<and> parseInt ''abc'' = NaN
   \<and> highScore (initSession G4 (emptyStorage(storageKey G4 \<mapsto> ''abc''))) = NaN"
proof -
  have p1: "parseInt ''120'' = Num 120" by code_simp
  have p2: "parseInt ''abc'' = NaN" by code_simp
  show ?thesis
    using highScore_read_at_start [of emptyStorage G4 "''abc''"]
      highScore_read_at_start [of "emptyStorage(storageKey G4 \<mapsto> '''')" G4 "''abc''"]
      highScore_read_at_start [of "emptyStorage(storageKey G4 \<mapsto> ''120'')" G4 "''120''"]
      highScore_read_at_start [of "emptyStorage(storageKey G4 \<mapsto> ''abc'')" G4 "''abc''"]
      p1 p2
    by (simp add: emptyStorage_def)
qed

subsection \<open>The first obstacle of a 5G session\<close>

text \<open>
  Claim C1 says that an idle 5G session has exactly one obstacle after exactly 60 frames.
  The spawn test of line 123 is \<^verbatim>\<open>frameCount - lastObstacleFrame > 60\<close>, which first holds
  on frame 61: after 60 frames the obstacle array is still empty.
\<close>

theorem no_obstacle_after_60_frames_counterexample:
  "obstacles (gameStateRef (run (replicate 60 (Frame sampleDraws)) (initSession G5 emptyStorage))) = []"
  by code_simp

text \<open>
  Claim C1, amended. In 5G mode, from the initial session state, with no key event and
  random draws in \<open>[0, 1)\<close>: after at most 60 frames there is no obstacle; after \<open>n\<close> frames
  with \<open>61 \<le> n \<le> 121\<close>, so after exactly 61 frames, exactly one obstacle exists, its \<open>x\<close> is
  \<open>800 - (n - 60) * speed\<close> with speed 4, where \<open>n - 60\<close> counts the frames since its spawn
  with the spawn frame, and its \<open>y\<close> lies in \<open>[0, 600 - size]\<close> for its size 30 or 40.
\<close>

theorem first_obstacle_after_61_frames:
  "(\<forall>d \<in> set ds. 0 \<le> yDraw d \<and> yDraw d < 1) \<longrightarrow>
     (length ds \<le> 60 \<longrightarrow>
        obstacles (gameStateRef (run (map Frame ds) (initSession G5 storage))) = [])
     \<and> (61 \<le> length ds \<and> length ds \<le> 121 \<longrightarrow>
        (\<exists>ob. obstacles (gameStateRef (run (map Frame ds) (initSession G5 storage))) = [ob]
           \<and> x ob = 800 - (real (length ds) - 60) * speed ob
           \<and> speed ob = 4
           \<and> 0 \<le> y ob \<and> y ob \<le> 600 - height ob
           \<and> width ob = height ob \<and> (height ob = 30 \<or> height ob = 40)))"
proof (intro impI conjI)
  assume yd: "\<forall>d \<in> set ds. 0 \<le> yDraw d \<and> yDraw d < 1" and "length ds \<le> 60"
  then have "idle5G (length ds) (run (map Frame ds) (initSession G5 storage))"
    by (intro idle5G_run) simp_all
  with \<open>length ds \<le> 60\<close>
  show "obstacles (gameStateRef (run (map Frame ds) (initSession G5 storage))) = []"
    by (simp add: idle5G_def)
next
  assume yd: "\<forall>d \<in> set ds. 0 \<le> yDraw d \<and> yDraw d < 1"
    and n: "61 \<le> length ds \<and> length ds \<le> 121"
  then have "idle5G (length ds) (run (map Frame ds) (initSession G5 storage))"
    by (intro idle5G_run) simp_all
  with n obtain ob where
    "obstacles (gameStateRef (run (map Frame ds) (initSession G5 storage))) = [ob]"
    "firstObstacleAt (length ds) ob"
    by (auto simp add: idle5G_def)
  then show "\<exists>ob. obstacles (gameStateRef (run (map Frame ds) (initSession G5 storage))) = [ob]
           \<and> x ob = 800 - (real (length ds) - 60) * speed ob
           \<and> speed ob = 4
           \<and> 0 \<le> y ob \<and> y ob \<le> 600 - height ob
           \<and> width ob = height ob \<and> (height ob = 30 \<or> height ob = 40)"
    by (auto simp add: firstObstacleAt_def)
qed

text \<open>After exactly 61 frames with the sample draws the one obstacle stands at \<open>x = 796\<close>.\<close>

theorem first_obstacle_after_61_frames_witness:
  "0 \<le> yDraw sampleDraws \<and> yDraw sampleDraws < 1
   \<and> length (replicate 61 sampleDraws) = 61
   \<and> (\<exists>ob. obstacles (gameStateRef (run (map Frame (replicate 61 sampleDraws))
                                         (initSession G5 emptyStorage))) = [ob]
         \<and> x ob = 796 \<and> speed ob = 4 \<and> 0 \<le> y ob \<and> y ob \<le> 600 - height ob)"
  using first_obstacle_after_61_frames [of "replicate 61 sampleDraws" emptyStorage]
  by (auto simp add: sampleDraws_def)

subsection \<open>A freeze lasts 15 frames\<close>

text \<open>
  Claim C5. In 4G mode, let the frame \<open>gameLoop d c\<close> trigger a freeze: the incremented
  frame count is a multiple of 120 and the coin is above one half, so \<open>freezeCounter\<close> is
  set to 15. That frame is frozen and leaves the counter at 14. After \<open>k \<le> 14\<close> further
  frames, with any key events in between, the rocket, the obstacles, the score, the last
  spawn frame, the game-over flag and the stored high score are as in \<open>c\<close>, the counter is
  \<open>14 - k\<close> and the frame count has advanced by \<open>1 + k\<close>. For \<open>k < 14\<close> the next frame is
  frozen again. For \<open>k = 14\<close>, that is after 15 frozen frames, the next frame is not
  frozen: it moves the rocket by the keys then held, spawns an obstacle if more than 50
  frames have passed since the last spawn, shifts every obstacle by its speed, drops
  those off screen for 10 points each, sets the game-over flag exactly if the rocket then
  collides with an obstacle, and clears \<open>shouldFreeze\<close>.
\<close>

theorem freeze_lasts_15_frames:
  "gameMode c = G4 \<and> \<not> gameOver c
   \<and> (frameCount (gameStateRef c) + 1) mod 120 = 0 \<and> freezeDraw d > 1 / 2
   \<and> Restart \<notin> set es \<and> k = length (filter isFrame es) \<and> k \<le> 14
   \<and> c' = run es (gameLoop d c)
   \<longrightarrow> frozenFrame d c
     \<and> freezeCounter (gameStateRef (gameLoop d c)) = 15 - 1
     \<and> frozenPart c' = frozenPart c
     \<and> shouldFreeze (gameStateRef c')
     \<and> freezeCounter (gameStateRef c') = 14 - int k
     \<and> frameCount (gameStateRef c') = frameCount (gameStateRef c) + 1 + int k
     \<and> (k < 14 \<longrightarrow> frozenFrame d' c')
     \<and> (k = 14 \<longrightarrow> \<not> frozenFrame d' c'
          \<and> gameLoop d' c' =
              updateGame d' (c'\<lparr>gameStateRef := (gameStateRef c')
                 \<lparr>frameCount := frameCount (gameStateRef c') + 1, shouldFreeze := False\<rparr>\<rparr>)
          \<and> rocket (gameStateRef (gameLoop d' c')) =
              moveRocket G4 (keys (gameStateRef c')) (rocket (gameStateRef c))
          \<and> spawned d' c' =
              (if frameCount (gameStateRef c) + 16 - lastObstacleFrame (gameStateRef c) > 50
               then [newObstacle G4 d'] else [])
          \<and> obstacles (gameStateRef (gameLoop d' c')) =
              filter (\<lambda>ob. \<not> offScreen ob) (map drift (obstacles (gameStateRef c) @ spawned d' c'))
          \<and> score (gameStateRef (gameLoop d' c')) =
              score (gameStateRef c)
              + 10 * int (length (filter offScreen
                                   (map drift (obstacles (gameStateRef c) @ spawned d' c'))))
          \<and> gameOver (gameLoop d' c') =
              list_ex (checkCollision (rocket (gameStateRef (gameLoop d' c'))))
                (obstacles (gameStateRef (gameLoop d' c')))
          \<and> \<not> shouldFreeze (gameStateRef (gameLoop d' c'))
          \<and> frameCount (gameStateRef (gameLoop d' c')) = frameCount (gameStateRef c) + 16)"
proof (intro impI)
  assume h: "gameMode c = G4 \<and> \<not> gameOver c
   \<and> (frameCount (gameStateRef c) + 1) mod 120 = 0 \<and> freezeDraw d > 1 / 2
   \<and> Restart \<notin> set es \<and> k = length (filter isFrame es) \<and> k \<le> 14
   \<and> c' = run es (gameLoop d c)"
  then have fz: "frozenFrame d c"
    by (simp add: frozenFrame_iff)
  have first: "freezeCounter (gameStateRef (gameLoop d c)) = 15 - 1"
    using h fz by (simp add: gameLoop_frozen_fields)
  have run: "frozenPart c' = frozenPart c \<and> shouldFreeze (gameStateRef c')
    \<and> freezeCounter (gameStateRef c') = 14 - int k
    \<and> frameCount (gameStateRef c') = frameCount (gameStateRef c) + 1 + int k"
    using h frozen_run [of c d es] by simp
  then have c': "gameMode c' = G4" "\<not> gameOver c'"
    using h by (simp_all add: frozenPart_def)
  from run have same: "rocket (gameStateRef c') = rocket (gameStateRef c)"
    "obstacles (gameStateRef c') = obstacles (gameStateRef c)"
    "score (gameStateRef c') = score (gameStateRef c)"
    "lastObstacleFrame (gameStateRef c') = lastObstacleFrame (gameStateRef c)"
    by (simp_all add: frozenPart_def)
  have nomult: "(frameCount (gameStateRef c') + 1) mod 120 \<noteq> 0"
  proof -
    have "(frameCount (gameStateRef c) + 1) mod 120 = 0" "k \<le> 14" using h by simp_all
    then have "(frameCount (gameStateRef c) + 1 + int k + 1) mod 120 \<noteq> 0" by presburger
    then show ?thesis using run by simp
  qed
  have again: "frozenFrame d' c'" if "k < 14"
    using that run c' by (simp add: frozenFrame_iff)
  have resume: "\<not> frozenFrame d' c'
          \<and> gameLoop d' c' =
              updateGame d' (c'\<lparr>gameStateRef := (gameStateRef c')
                 \<lparr>frameCount := frameCount (gameStateRef c') + 1, shouldFreeze := False\<rparr>\<rparr>)
          \<and> rocket (gameStateRef (gameLoop d' c')) =
              moveRocket G4 (keys (gameStateRef c')) (rocket (gameStateRef c))
          \<and> spawned d' c' =
              (if frameCount (gameStateRef c) + 16 - lastObstacleFrame (gameStateRef c) > 50
               then [newObstacle G4 d'] else [])
          \<and> obstacles (gameStateRef (gameLoop d' c')) =
              filter (\<lambda>ob. \<not> offScreen ob) (map drift (obstacles (gameStateRef c) @ spawned d' c'))
          \<and> score (gameStateRef (gameLoop d' c')) =
              score (gameStateRef c)
              + 10 * int (length (filter offScreen
                                   (map drift (obstacles (gameStateRef c) @ spawned d' c'))))
          \<and> gameOver (gameLoop d' c') =
              list_ex (checkCollision (rocket (gameStateRef (gameLoop d' c'))))
                (obstacles (gameStateRef (gameLoop d' c')))
          \<and> \<not> shouldFreeze (gameStateRef (gameLoop d' c'))
          \<and> frameCount (gameStateRef (gameLoop d' c')) = frameCount (gameStateRef c) + 16"
    if k: "k = 14"
  proof -
    have nf: "\<not> frozenFrame d' c'"
      using k run nomult by (simp add: frozenFrame_iff)
    have upd: "gameLoop d' c' =
              updateGame d' (c'\<lparr>gameStateRef := (gameStateRef c')
                 \<lparr>frameCount := frameCount (gameStateRef c') + 1, shouldFreeze := False\<rparr>\<rparr>)"
      using nf c' by (simp add: gameLoop_running)
    have rk: "rocket (gameStateRef (gameLoop d' c')) =
              moveRocket G4 (keys (gameStateRef c')) (rocket (gameStateRef c))"
      using c'(1) same(1) by (simp add: gameLoop_running_fields(1) [OF c'(2) nf])
    have sp: "spawned d' c' =
              (if frameCount (gameStateRef c) + 16 - lastObstacleFrame (gameStateRef c) > 50
               then [newObstacle G4 d'] else [])"
      using run k c'(1) same(4) by (simp add: spawned_def spawnRate_def)
    have ob: "obstacles (gameStateRef (gameLoop d' c')) =
              filter (\<lambda>ob. \<not> offScreen ob) (map drift (obstacles (gameStateRef c) @ spawned d' c'))"
      using same(2) by (simp add: gameLoop_running_obstacles [OF c'(2) nf])
    have sc: "score (gameStateRef (gameLoop d' c')) =
              score (gameStateRef c)
              + 10 * int (length (filter offScreen
                                   (map drift (obstacles (gameStateRef c) @ spawned d' c'))))"
      using same(2,3) by (simp add: gameLoop_running_score [OF c'(2) nf])
    have go: "gameOver (gameLoop d' c') =
              list_ex (checkCollision (rocket (gameStateRef (gameLoop d' c'))))
                (obstacles (gameStateRef (gameLoop d' c')))"
      by (rule gameLoop_running_fields(6) [OF c'(2) nf])
    have sf: "\<not> shouldFreeze (gameStateRef (gameLoop d' c'))"
      using c'(1) by (simp add: gameLoop_running_shouldFreeze [OF c'(2) nf])
    have fc: "frameCount (gameStateRef (gameLoop d' c')) = frameCount (gameStateRef c) + 16"
      using run k by (simp add: gameLoop_running_fields(3) [OF c'(2) nf])
    from nf upd rk sp ob sc go sf fc show ?thesis by blast
  qed
  from fz first run again resume
  show "frozenFrame d c
     \<and> freezeCounter (gameStateRef (gameLoop d c)) = 15 - 1
     \<and> frozenPart c' = frozenPart c
     \<and> shouldFreeze (gameStateRef c')
     \<and> freezeCounter (gameStateRef c') = 14 - int k
     \<and> frameCount (gameStateRef c') = frameCount (gameStateRef c) + 1 + int k
     \<and> (k < 14 \<longrightarrow> frozenFrame d' c')
     \<and> (k = 14 \<longrightarrow> \<not> frozenFrame d' c'
          \<and> gameLoop d' c' =
              updateGame d' (c'\<lparr>gameStateRef := (gameStateRef c')
                 \<lparr>frameCount := frameCount (gameStateRef c') + 1, shouldFreeze := False\<rparr>\<rparr>)
          \<and> rocket (gameStateRef (gameLoop d' c')) =
              moveRocket G4 (keys (gameStateRef c')) (rocket (gameStateRef c))
          \<and> spawned d' c' =
              (if frameCount (gameStateRef c) + 16 - lastObstacleFrame (gameStateRef c) > 50
               then [newObstacle G4 d'] else [])
          \<and> obstacles (gameStateRef (gameLoop d' c')) =
              filter (\<lambda>ob. \<not> offScreen ob) (map drift (obstacles (gameStateRef c) @ spawned d' c'))
          \<and> score (gameStateRef (gameLoop d' c')) =
              score (gameStateRef c)
              + 10 * int (length (filter offScreen
                                   (map drift (obstacles (gameStateRef c) @ spawned d' c'))))
          \<and> gameOver (gameLoop d' c') =
              list_ex (checkCollision (rocket (gameStateRef (gameLoop d' c'))))
                (obstacles (gameStateRef (gameLoop d' c')))
          \<and> \<not> shouldFreeze (gameStateRef (gameLoop d' c'))
          \<and> frameCount (gameStateRef (gameLoop d' c')) = frameCount (gameStateRef c) + 16)"
    by blast
qed

text \<open>
  In \<open>lagSession\<close> frame 120 triggers a freeze with the sample draws. After it and 14
  more frames, with \<^verbatim>\<open>d\<close> pressed before them, the counter is 0 at frame 134 and
  nothing has moved: the rocket is at \<open>x = 100\<close> and the obstacles at 593 and 746. Frame
  135 is not frozen: it moves the rocket to \<open>x = 104\<close> and the obstacles to 590 and 743,
  spawns nothing, and the game goes on.
\<close>

theorem freeze_lasts_15_frames_witness:
  "gameMode lagSession = G4 \<and> \<not> gameOver lagSession
   \<and> (frameCount (gameStateRef lagSession) + 1) mod 120 = 0 \<and> freezeDraw sampleDraws > 1 / 2
   \<and> Restart \<notin> set (KeyDown ''d'' # replicate 14 (Frame sampleDraws))
   \<and> length (filter isFrame (KeyDown ''d'' # replicate 14 (Frame sampleDraws))) = 14
   \<and> frozenFrame sampleDraws lagSession
   \<and> freezeCounter (gameStateRef
        (run (KeyDown ''d'' # replicate 14 (Frame sampleDraws)) (gameLoop sampleDraws lagSession))) = 0
   \<and> frameCount (gameStateRef
        (run (KeyDown ''d'' # replicate 14 (Frame sampleDraws)) (gameLoop sampleDraws lagSession))) = 134
   \<and> rocket (gameStateRef
        (run (KeyDown ''d'' # replicate 14 (Frame sampleDraws)) (gameLoop sampleDraws lagSession)))
       = rocket (gameStateRef lagSession)
   \<and> x (rocket (gameStateRef lagSession)) = 100
   \<and> map x (obstacles (gameStateRef
        (run (KeyDown ''d'' # replicate 14 (Frame sampleDraws)) (gameLoop sampleDraws lagSession))))
       = [593, 746]
   \<and> \<not> frozenFrame sampleDraws
        (run (KeyDown ''d'' # replicate 14 (Frame sampleDraws)) (gameLoop sampleDraws lagSession))
   \<and> x (rocket (gameStateRef (gameLoop sampleDraws
        (run (KeyDown ''d'' # replicate 14 (Frame sampleDraws)) (gameLoop sampleDraws lagSession)))))
       = 104
   \<and> map x (obstacles (gameStateRef (gameLoop sampleDraws
        (run (KeyDown ''d'' # replicate 14 (Frame sampleDraws)) (gameLoop sampleDraws lagSession)))))
       = [590, 743]
   \<and> \<not> gameOver (gameLoop sampleDraws
        (run (KeyDown ''d'' # replicate 14 (Frame sampleDraws)) (gameLoop sampleDraws lagSession)))
   \<and> \<not> shouldFreeze (gameStateRef (gameLoop sampleDraws
        (run (KeyDown ''d'' # replicate 14 (Frame sampleDraws)) (gameLoop sampleDraws lagSession))))
   \<and> frameCount (gameStateRef (gameLoop sampleDraws
        (run (KeyDown ''d'' # replicate 14 (Frame sampleDraws)) (gameLoop sampleDraws lagSession))))
       = 135"
proof -
  define c' where
    "c' = run (KeyDown ''d'' # replicate 14 (Frame sampleDraws)) (gameLoop sampleDraws lagSession)"
  have hyp: "gameMode lagSession = G4 \<and> \<not> gameOver lagSession
   \<and> (frameCount (gameStateRef lagSession) + 1) mod 120 = 0 \<and> freezeDraw sampleDraws > 1 / 2
   \<and> Restart \<notin> set (KeyDown ''d'' # replicate 14 (Frame sampleDraws))
   \<and> length (filter isFrame (KeyDown ''d'' # replicate 14 (Frame sampleDraws))) = 14"
    by (simp add: lagSession_def initSession_def initialGameState_def sampleDraws_def)
  have start: "x (rocket (gameStateRef lagSession)) = 100"
    "map x (obstacles (gameStateRef lagSession)) = [593, 746]"
    "frameCount (gameStateRef lagSession) = 119"
    by (simp_all add: lagSession_def initSession_def initialGameState_def)
  have th: "frozenFrame sampleDraws lagSession
     \<and> frozenPart c' = frozenPart lagSession
     \<and> freezeCounter (gameStateRef c') = 14 - int 14
     \<and> frameCount (gameStateRef c') = frameCount (gameStateRef lagSession) + 1 + int 14
     \<and> \<not> frozenFrame sampleDraws c'
     \<and> \<not> shouldFreeze (gameStateRef (gameLoop sampleDraws c'))
     \<and> frameCount (gameStateRef (gameLoop sampleDraws c')) = frameCount (gameStateRef lagSession) + 16"
  proof -
    have pre: "gameMode lagSession = G4 \<and> \<not> gameOver lagSession
      \<and> (frameCount (gameStateRef lagSession) + 1) mod 120 = 0 \<and> freezeDraw sampleDraws > 1 / 2
      \<and> Restart \<notin> set (KeyDown ''d'' # replicate 14 (Frame sampleDraws))
      \<and> 14 = length (filter isFrame (KeyDown ''d'' # replicate 14 (Frame sampleDraws)))
      \<and> (14::nat) \<le> 14
      \<and> c' = run (KeyDown ''d'' # replicate 14 (Frame sampleDraws)) (gameLoop sampleDraws lagSession)"
      using hyp c'_def by simp
    show ?thesis
      using freeze_lasts_15_frames
        [of lagSession sampleDraws "KeyDown ''d'' # replicate 14 (Frame sampleDraws)" 14 c'
            sampleDraws, THEN mp, OF pre]
      by blast
  qed
  have moved: "x (rocket (gameStateRef (gameLoop sampleDraws c'))) = 104"
    "map x (obstacles (gameStateRef (gameLoop sampleDraws c'))) = [590, 743]"
    "\<not> gameOver (gameLoop sampleDraws c')"
    unfolding c'_def by code_simp+
  from th have still: "rocket (gameStateRef c') = rocket (gameStateRef lagSession)"
    "map x (obstacles (gameStateRef c')) = [593, 746]"
    using start by (simp_all add: frozenPart_def)
  from hyp th start moved still show ?thesis
    unfolding c'_def by simp
qed

subsection \<open>High score and score\<close>

text \<open>
  Claim C7. Let \<open>c\<close> be the session after any sequence of events from its start in mode
  \<open>m\<close>, and \<open>c'\<close> the session after one more event. If \<open>localStorage\<close> differs between
  \<open>c\<close> and \<open>c'\<close>, the event is a frame on which the game goes over, the final score is
  strictly above the high score stored for \<open>m\<close> in \<open>c\<close> (read as at session start), and
  the only change is that the entry of \<open>m\<close> now holds the final score. The guard makes
  the written text differ from the stored one, so every write is such a change. Unless
  the event is a restart, the score of \<open>c'\<close> is at least the score of \<open>c\<close>.
\<close>

theorem high_score_written_only_at_game_over:
  "c = run es (initSession m storage) \<and> c' = step e c \<longrightarrow>
     (localStorage c' \<noteq> localStorage c \<longrightarrow>
        isFrame e \<and> \<not> gameOver c \<and> gameOver c'
        \<and> js_gt (score (gameStateRef c')) (readHighScore (localStorage c) m)
        \<and> localStorage c' = (localStorage c)(storageKey m \<mapsto> toString (score (gameStateRef c'))))
     \<and> (e \<noteq> Restart \<longrightarrow> score (gameStateRef c) \<le> score (gameStateRef c'))"
proof (intro impI conjI)
  assume h: "c = run es (initSession m storage) \<and> c' = step e c"
  then have sync: "inSync m c" using run_inSync [of m es storage] by simp
  {
    assume "localStorage c' \<noteq> localStorage c"
    then have "isFrame e \<and> \<not> gameOver c \<and> gameOver (step e c)
      \<and> js_gt (score (gameStateRef (step e c))) (highScore c)
      \<and> localStorage (step e c) =
          (localStorage c)(storageKey (gameMode c) \<mapsto> toString (score (gameStateRef (step e c))))"
      using h step_storage_change [of e c] by simp
    then show "isFrame e" "\<not> gameOver c" "gameOver c'"
      "js_gt (score (gameStateRef c')) (readHighScore (localStorage c) m)"
      "localStorage c' = (localStorage c)(storageKey m \<mapsto> toString (score (gameStateRef c')))"
      using h sync by (simp_all add: inSync_def)
  }
  assume "e \<noteq> Restart"
  then show "score (gameStateRef c) \<le> score (gameStateRef c')"
    using h step_score_mono [of e c] by simp
qed


text \<open>
  A 5G session whose stored entry is \<^verbatim>\<open>"-5"\<close>, steered up and right into the first
  obstacle: frame 91 ends the game with score 0, which exceeds \<open>- 5\<close>, and the entry
  becomes \<^verbatim>\<open>"0"\<close>.
\<close>

theorem high_score_written_only_at_game_over_witness:
  "localStorage (run crashEvents (initSession G5 crashStorage)) (storageKey G5) = Some ''-5''
   \<and> localStorage (step (Frame sampleDraws) (run crashEvents (initSession G5 crashStorage)))
        (storageKey G5) = Some ''0''
   \<and> \<not> gameOver (run crashEvents (initSession G5 crashStorage))
   \<and> gameOver (step (Frame sampleDraws) (run crashEvents (initSession G5 crashStorage)))
   \<and> js_gt (score (gameStateRef (step (Frame sampleDraws) (run crashEvents (initSession G5 crashStorage)))))
        (readHighScore (localStorage (run crashEvents (initSession G5 crashStorage))) G5)
   \<and> score (gameStateRef (run crashEvents (initSession G5 crashStorage)))
        \<le> score (gameStateRef (step (Frame sampleDraws) (run crashEvents (initSession G5 crashStorage))))"
proof -
  define c where "c = run crashEvents (initSession G5 crashStorage)"
  define c' where "c' = step (Frame sampleDraws) c"
  have a: "localStorage c (storageKey G5) = Some ''-5''"
    unfolding c_def by code_simp
  have b: "localStorage c' (storageKey G5) = Some ''0''"
    unfolding c'_def c_def by code_simp
  have neq: "localStorage c' \<noteq> localStorage c"
  proof
    assume "localStorage c' = localStorage c"
    then have "localStorage c' (storageKey G5) = localStorage c (storageKey G5)" by simp
    then show False unfolding a b by simp
  qed
  have ev: "Frame sampleDraws \<noteq> Restart" by simp
  have "c = run crashEvents (initSession G5 crashStorage) \<and> c' = step (Frame sampleDraws) c"
    unfolding c_def c'_def by simp
  with high_score_written_only_at_game_over
      [of c crashEvents G5 crashStorage c' "Frame sampleDraws"] neq ev
  have "\<not> gameOver c \<and> gameOver c'
      \<and> js_gt (score (gameStateRef c')) (readHighScore (localStorage c) G5)
      \<and> score (gameStateRef c) \<le> score (gameStateRef c')"
    by blast
  with a b show ?thesis
    unfolding c'_def c_def by simp
qed

end
